theory Spec2Isabelle
  imports Main "HOL-Library.Word" "HOL-Library.Multiset" "HOL-Library.Product_Lexorder"
begin

section \<open>Data model of the report share-link subsystem\<close>

text \<open>
  Timestamps are JavaScript \<open>Date\<close> values and \<open>TIMESTAMP(3)\<close> columns: milliseconds
  since the epoch, modelled as \<open>int\<close>. Every table of the relational store is the list
  of its rows; where a query leaves the order of its answer open, that order is a
  parameter of the handler. Reading the store does not fail; a
  failure of the persistence layer appears where the source tells failures apart, at
  the insert of a share link.
\<close>

type_synonym timestamp = int

record folder =
  folder_id :: string
  folder_name :: string
  folder_parentId :: "string option"

text \<open>One breadcrumb \<open>{ id, name }\<close> of a folder path.\<close>

record crumb =
  crumb_id :: string
  crumb_name :: string

text \<open>
  A plan item is loaded together with its required relation \<open>testCase\<close>; the joined
  test case is a field of the item row.
\<close>

record test_case =
  tc_id :: string
  tc_sequence :: int
  tc_folderId :: "string option"

record plan_item =
  item_id :: string
  item_planId :: string
  item_order :: int
  item_testCase :: test_case

record plan =
  plan_id :: string
  plan_name :: string

text \<open>A row of \<open>report_share_links\<close> (migration \<open>20260107105944\<close>).\<close>

record share_link =
  link_id :: string
  link_token :: string
  link_planId :: string
  link_createdByUserId :: string
  link_createdAt :: timestamp
  link_expiresAt :: timestamp
  link_revokedAt :: "timestamp option"

record store =
  plans :: "plan list"
  planItems :: "plan_item list"
  folders :: "folder list"
  shareLinks :: "share_link list"

text \<open>
  JavaScript truthiness of a \<open>string | null\<close> value: \<open>null\<close> and the empty string
  are falsy.
\<close>

fun truthy :: "string option \<Rightarrow> bool" where
  "truthy None = False"
| "truthy (Some s) = (s \<noteq> [])"

text \<open>\<open>prisma.X.findUnique\<close> on a unique column: the first row that matches, or null.\<close>

definition findFolder :: "folder list \<Rightarrow> string \<Rightarrow> folder option" where
  "findFolder fs i = find (\<lambda>f. folder_id f = i) fs"

definition findPlan :: "store \<Rightarrow> string \<Rightarrow> plan option" where
  "findPlan db i = find (\<lambda>p. plan_id p = i) (plans db)"

definition findLinkByToken :: "store \<Rightarrow> string \<Rightarrow> share_link option" where
  "findLinkByToken db t = find (\<lambda>l. link_token l = t) (shareLinks db)"

definition findLinkById :: "store \<Rightarrow> string \<Rightarrow> share_link option" where
  "findLinkById db i = find (\<lambda>l. link_id l = i) (shareLinks db)"

section \<open>The folder breadcrumb walk\<close>

text \<open>
  The \<open>while (currentId)\<close> loop of \<open>getFolderPath\<close>. The source has no bound on the
  number of iterations, so the loop is a partial function: \<open>None\<close> is "does not return".
  \<open>path.unshift\<close> puts the new breadcrumb in front.
\<close>

partial_function (option) getFolderPath_loop ::
  "folder list \<Rightarrow> string option \<Rightarrow> crumb list \<Rightarrow> crumb list option"
where
  "getFolderPath_loop fs currentId path =
     (if truthy currentId then
        (case findFolder fs (the currentId) of
           None \<Rightarrow> Some path
         | Some folder \<Rightarrow>
             getFolderPath_loop fs (folder_parentId folder)
               (\<lparr>crumb_id = folder_id folder, crumb_name = folder_name folder\<rparr> # path))
      else Some path)"

definition getFolderPath :: "folder list \<Rightarrow> string option \<Rightarrow> crumb list option" where
  "getFolderPath fs folderId =
     (if \<not> truthy folderId then Some [] else getFolderPath_loop fs folderId [])"

section \<open>The public report resolver\<close>

text \<open>
  The \<open>select\<close> of the public lookup: the six columns the resolver reads and returns
  as \<open>share\<close>.
\<close>

record share_view =
  sv_id :: string
  sv_token :: string
  sv_planId :: string
  sv_createdAt :: timestamp
  sv_expiresAt :: timestamp
  sv_revokedAt :: "timestamp option"

definition selectPublic :: "share_link \<Rightarrow> share_view" where
  "selectPublic l =
     \<lparr>sv_id = link_id l, sv_token = link_token l, sv_planId = link_planId l,
      sv_createdAt = link_createdAt l, sv_expiresAt = link_expiresAt l,
      sv_revokedAt = link_revokedAt l\<rparr>"

text \<open>
  An item of the payload: the loaded item (\<open>...item\<close>, with its test case), the
  included \<open>folder\<close> relation of the test case, and the computed \<open>folderPath\<close>.
\<close>

record item_view =
  iv_item :: plan_item
  iv_folder :: "folder option"
  iv_folderPath :: "crumb list"

record plan_view =
  pv_plan :: plan
  pv_items :: "item_view list"

record report_payload =
  rp_share :: share_view
  rp_plan :: plan_view

datatype resolve_response =
    LinkNotFound
  | LinkGone
  | PlanGone
  | ReportOk report_payload

fun resolve_status :: "resolve_response \<Rightarrow> nat" where
  "resolve_status LinkNotFound = 404"
| "resolve_status LinkGone = 410"
| "resolve_status PlanGone = 410"
| "resolve_status (ReportOk _) = 200"

text \<open>
  \<open>orderBy: [{ order: 'asc' }, { testCase: { sequence: 'asc' } }]\<close> on the items of one
  plan: the rows of the plan, sorted on the pair (order, sequence) in lexicographic
  order. The query names no further key, so the order of rows that agree on both is
  the database engine's: it is the order in which the engine produces the rows of the
  plan before sorting them, \<open>scan\<close>, which belongs to the environment of the request
  and not to the stored state.
\<close>

definition itemKey :: "plan_item \<Rightarrow> int \<times> int" where
  "itemKey i = (item_order i, tc_sequence (item_testCase i))"

definition loadItems ::
  "(plan_item list \<Rightarrow> plan_item list) \<Rightarrow> store \<Rightarrow> string \<Rightarrow> plan_item list"
where
  "loadItems scan db pid =
     sort_key itemKey (scan (filter (\<lambda>i. item_planId i = pid) (planItems db)))"

definition includeFolder :: "folder list \<Rightarrow> string option \<Rightarrow> folder option" where
  "includeFolder fs fid = (case fid of None \<Rightarrow> None | Some i \<Rightarrow> findFolder fs i)"

definition withFolderPath :: "folder list \<Rightarrow> plan_item \<Rightarrow> item_view option" where
  "withFolderPath fs item =
     map_option
       (\<lambda>folderPath. \<lparr>iv_item = item,
                      iv_folder = includeFolder fs (tc_folderId (item_testCase item)),
                      iv_folderPath = folderPath\<rparr>)
       (getFolderPath fs (tc_folderId (item_testCase item)))"

text \<open>
  \<open>getPublicPlanReportByToken\<close>. \<open>Promise.all\<close> settles only when every walk has
  returned, so the handler answers \<open>None\<close> (no response) when one of them does not.
\<close>

definition getPublicPlanReportByToken ::
  "(plan_item list \<Rightarrow> plan_item list) \<Rightarrow> store \<Rightarrow> timestamp \<Rightarrow> string
   \<Rightarrow> resolve_response option"
where
  "getPublicPlanReportByToken scan db now token =
     (case findLinkByToken db token of
        None \<Rightarrow> Some LinkNotFound
      | Some row \<Rightarrow>
          let link = selectPublic row in
          if sv_revokedAt link \<noteq> None \<or> sv_expiresAt link \<le> now then Some LinkGone
          else
            (case findPlan db (sv_planId link) of
               None \<Rightarrow> Some PlanGone
             | Some plan \<Rightarrow>
                 (case those (map (withFolderPath (folders db)) (loadItems scan db (plan_id plan))) of
                    None \<Rightarrow> None
                  | Some itemsWithFolderPath \<Rightarrow>
                      Some (ReportOk
                        \<lparr>rp_share = link,
                         rp_plan = \<lparr>pv_plan = plan, pv_items = itemsWithFolderPath\<rparr>\<rparr>))))"

text \<open>
  The breadcrumbs of a folder reference, root first: empty for a falsy or missing
  reference, otherwise the breadcrumbs of the parent followed by the folder itself.
  This is the path the walk is meant to compute.
\<close>

inductive breadcrumbs :: "folder list \<Rightarrow> string option \<Rightarrow> crumb list \<Rightarrow> bool" where
  bc_falsy: "\<not> truthy cur \<Longrightarrow> breadcrumbs fs cur []"
| bc_missing: "truthy cur \<Longrightarrow> findFolder fs (the cur) = None \<Longrightarrow> breadcrumbs fs cur []"
| bc_step: "truthy cur \<Longrightarrow> findFolder fs (the cur) = Some f \<Longrightarrow>
     breadcrumbs fs (folder_parentId f) path \<Longrightarrow>
     breadcrumbs fs cur (path @ [\<lparr>crumb_id = folder_id f, crumb_name = folder_name f\<rparr>])"

section \<open>The token generator\<close>

text \<open>
  \<open>Buffer.toString\<close> with the encodings \<open>'base64'\<close> and \<open>'base64url'\<close>: three bytes
  become four characters of a 64-character alphabet; \<open>'base64'\<close> pads the last group
  with \<open>=\<close>, \<open>'base64url'\<close> does not.
\<close>

type_synonym byte = "8 word"

definition base64_alphabet :: string where
  "base64_alphabet = ''ABCDEFGHIJKLMNOPQRSTUVWXYZabcdefghijklmnopqrstuvwxyz0123456789+/''"

definition base64url_alphabet :: string where
  "base64url_alphabet = ''ABCDEFGHIJKLMNOPQRSTUVWXYZabcdefghijklmnopqrstuvwxyz0123456789-_''"

fun encode64 :: "string \<Rightarrow> bool \<Rightarrow> byte list \<Rightarrow> string" where
  "encode64 al pad [] = []"
| "encode64 al pad [a] =
     [al ! (unat a div 4), al ! ((unat a mod 4) * 16)] @ (if pad then ''=='' else [])"
| "encode64 al pad [a, b] =
     [al ! (unat a div 4), al ! ((unat a mod 4) * 16 + unat b div 16),
      al ! ((unat b mod 16) * 4)] @ (if pad then ''='' else [])"
| "encode64 al pad (a # b # c # rest) =
     [al ! (unat a div 4), al ! ((unat a mod 4) * 16 + unat b div 16),
      al ! ((unat b mod 16) * 4 + unat c div 64), al ! (unat c mod 64)]
     @ encode64 al pad rest"

definition toString_base64 :: "byte list \<Rightarrow> string" where
  "toString_base64 buf = encode64 base64_alphabet True buf"

definition toString_base64url :: "byte list \<Rightarrow> string" where
  "toString_base64url buf = encode64 base64url_alphabet False buf"

text \<open>\<open>s.replace(/c/g, d)\<close> for a single character, and \<open>s.replace(/=+$/g, '')\<close>.\<close>

definition replaceAll :: "char \<Rightarrow> char \<Rightarrow> string \<Rightarrow> string" where
  "replaceAll c d s = map (\<lambda>x. if x = c then d else x) s"

definition stripTrailingPad :: "string \<Rightarrow> string" where
  "stripTrailingPad s = rev (dropWhile (\<lambda>x. x = CHR ''='') (rev s))"

text \<open>
  \<open>generateShareToken(bytes)\<close>. The random source \<open>crypto.randomBytes\<close> belongs to the
  environment and is a parameter: asked for \<open>n\<close> bytes it returns a buffer.
\<close>

definition generateShareToken :: "(nat \<Rightarrow> byte list) \<Rightarrow> nat \<Rightarrow> string" where
  "generateShareToken randomBytes bytes =
     (let buf = randomBytes bytes;
          token = toString_base64url buf
      in if token \<noteq> [] then token
         else stripTrailingPad
                (replaceAll (CHR ''/'') (CHR ''_'')
                  (replaceAll (CHR ''+'') (CHR ''-'') (toString_base64 buf))))"

section \<open>Calendar arithmetic of \<open>addDays\<close>\<close>

text \<open>
  \<open>Date.prototype.setDate\<close> works on local time (ECMAScript, Date objects):
  \<open>t = LocalTime(this)\<close>, \<open>newDate = MakeDate(MakeDay(Year(t), Month(t), dt), TimeWithinDay(t))\<close>,
  and the new time value is \<open>UTC(newDate)\<close>. With \<open>dt = getDate() + days\<close> the day number
  \<open>MakeDay\<close> returns is \<open>Day(t) + days\<close>. The host's time zone is a parameter: its offset
  from UTC at a UTC instant and at a local time. Time values stay within the range of
  \<open>Date\<close>, so \<open>TimeClip\<close> is the identity.
\<close>

record timezone =
  tza_at_utc :: "timestamp \<Rightarrow> int"
  tza_at_local :: "timestamp \<Rightarrow> int"

definition msPerDay :: int where
  "msPerDay = 86400000"

definition Day :: "timestamp \<Rightarrow> int" where
  "Day t = t div msPerDay"

definition TimeWithinDay :: "timestamp \<Rightarrow> int" where
  "TimeWithinDay t = t mod msPerDay"

definition MakeDate :: "int \<Rightarrow> int \<Rightarrow> timestamp" where
  "MakeDate day time = day * msPerDay + time"

definition LocalTime :: "timezone \<Rightarrow> timestamp \<Rightarrow> timestamp" where
  "LocalTime tz t = t + tza_at_utc tz t"

definition UTC :: "timezone \<Rightarrow> timestamp \<Rightarrow> timestamp" where
  "UTC tz t = t - tza_at_local tz t"

definition SHARE_EXPIRES_DAYS :: int where
  "SHARE_EXPIRES_DAYS = 7"

definition addDays :: "timezone \<Rightarrow> timestamp \<Rightarrow> int \<Rightarrow> timestamp" where
  "addDays tz date days =
     (let t = LocalTime tz date;
          newDate = MakeDate (Day t + days) (TimeWithinDay t)
      in UTC tz newDate)"

section \<open>The share-link service\<close>

text \<open>
  What \<open>prisma.reportShareLink.create\<close> can throw: an error object with a \<open>code\<close>
  (\<open>P2002\<close> is a unique-constraint violation), or anything else.
\<close>

datatype thrown = ErrorWithCode string | ErrorWithoutCode

fun isUniqueViolation :: "thrown \<Rightarrow> bool" where
  "isUniqueViolation (ErrorWithCode c) = (c = ''P2002'')"
| "isUniqueViolation ErrorWithoutCode = False"

text \<open>
  The environment of one \<open>createPlanReportShareLink\<close> request: the host time zone, the
  handler's clock reading \<open>new Date()\<close>, and for each attempt of the retry loop the
  random source \<open>crypto.randomBytes\<close> as it answers then, the primary key generated for the row, the
  clock reading that fills the column default of \<open>createdAt\<close>, and a failure of the
  persistence layer that is not a constraint violation, if one occurs.
\<close>

record create_env =
  env_tz :: timezone
  env_now :: timestamp
  env_randomBytes :: "nat \<Rightarrow> nat \<Rightarrow> byte list"
  env_newId :: "nat \<Rightarrow> string"
  env_createdAt :: "nat \<Rightarrow> timestamp"
  env_fault :: "nat \<Rightarrow> thrown option"

text \<open>
  \<open>prisma.reportShareLink.create\<close> against the table of the migration: primary key
  \<open>id\<close>, unique index on \<open>token\<close>, foreign key \<open>planId\<close>, \<open>createdAt\<close> filled by its
  default, \<open>revokedAt\<close> null. The new row is appended.
\<close>

definition reportShareLink_create ::
  "store \<Rightarrow> string \<Rightarrow> timestamp \<Rightarrow> thrown option \<Rightarrow> string \<Rightarrow> string \<Rightarrow> string \<Rightarrow> timestamp
   \<Rightarrow> thrown + (share_link \<times> store)"
where
  "reportShareLink_create db newId createdAt fault token planId userId expiresAt =
     (case fault of
        Some e \<Rightarrow> Inl e
      | None \<Rightarrow>
          if findLinkById db newId \<noteq> None then Inl (ErrorWithCode ''P2002'')
          else if findLinkByToken db token \<noteq> None then Inl (ErrorWithCode ''P2002'')
          else if findPlan db planId = None then Inl (ErrorWithCode ''P2003'')
          else
            let row = \<lparr>link_id = newId, link_token = token, link_planId = planId,
                       link_createdByUserId = userId, link_createdAt = createdAt,
                       link_expiresAt = expiresAt, link_revokedAt = None\<rparr>
            in Inr (row, db\<lparr>shareLinks := shareLinks db @ [row]\<rparr>))"

datatype create_response =
    Unauthorized
  | CreatePlanNotFound
  | Created share_link
  | CreateRetriesExhausted
  | CreateServerError

fun create_status :: "create_response \<Rightarrow> nat" where
  "create_status Unauthorized = 401"
| "create_status CreatePlanNotFound = 404"
| "create_status (Created _) = 201"
| "create_status CreateRetriesExhausted = 500"
| "create_status CreateServerError = 500"

text \<open>
  The loop \<open>for (let attempt = 0; attempt < 5; attempt++)\<close>. Besides the response and
  the store it returns the tokens it handed to the persistence layer, in order: one per
  call of \<open>prisma.reportShareLink.create\<close>.
\<close>

function createLoop ::
  "create_env \<Rightarrow> store \<Rightarrow> string \<Rightarrow> string \<Rightarrow> timestamp \<Rightarrow> nat
   \<Rightarrow> create_response \<times> store \<times> string list"
where
  "createLoop env db planId userId expiresAt attempt =
     (if attempt < 5 then
        (let token = generateShareToken (env_randomBytes env attempt) 32 in
         case reportShareLink_create db (env_newId env attempt) (env_createdAt env attempt)
                (env_fault env attempt) token planId userId expiresAt of
           Inr (link, db') \<Rightarrow> (Created link, db', [token])
         | Inl e \<Rightarrow>
             if isUniqueViolation e then
               (case createLoop env db planId userId expiresAt (attempt + 1) of
                  (res, db', tokens) \<Rightarrow> (res, db', token # tokens))
             else (CreateServerError, db, [token]))
      else (CreateRetriesExhausted, db, []))"
  by pat_completeness auto
termination
  by (relation "measure (\<lambda>(env, db, planId, userId, expiresAt, attempt). 5 - attempt)") auto

definition createPlanReportShareLink ::
  "create_env \<Rightarrow> store \<Rightarrow> string \<Rightarrow> string option
   \<Rightarrow> create_response \<times> store \<times> string list"
where
  "createPlanReportShareLink env db planId userId =
     (if \<not> truthy userId then (Unauthorized, db, [])
      else
        (case findPlan db planId of
           None \<Rightarrow> (CreatePlanNotFound, db, [])
         | Some plan \<Rightarrow>
             let now = env_now env;
                 expiresAt = addDays (env_tz env) now SHARE_EXPIRES_DAYS
             in createLoop env db planId (the userId) expiresAt 0))"

datatype list_response =
    ListPlanNotFound
  | ListOk "share_link list"

fun list_status :: "list_response \<Rightarrow> nat" where
  "list_status ListPlanNotFound = 404"
| "list_status (ListOk _) = 200"

text \<open>
  \<open>findMany({ where: { planId }, orderBy: { createdAt: 'desc' } })\<close>: the rows of the
  plan, sorted on \<open>createdAt\<close> descending.
\<close>

definition listPlanReportShareLinks :: "store \<Rightarrow> string \<Rightarrow> list_response" where
  "listPlanReportShareLinks db planId =
     (case findPlan db planId of
        None \<Rightarrow> ListPlanNotFound
      | Some plan \<Rightarrow>
          ListOk (sort_key (\<lambda>l. - link_createdAt l)
                    (filter (\<lambda>l. link_planId l = planId) (shareLinks db))))"

text \<open>The \<open>select: { id, revokedAt }\<close> of the lookup in \<open>revokeReportShareLink\<close>.\<close>

record revoke_view =
  rv_id :: string
  rv_revokedAt :: "timestamp option"

datatype revoke_response =
    RevokeNotFound
  | AlreadyRevoked revoke_view
  | Revoked share_link

fun revoke_status :: "revoke_response \<Rightarrow> nat" where
  "revoke_status RevokeNotFound = 404"
| "revoke_status (AlreadyRevoked _) = 200"
| "revoke_status (Revoked _) = 200"

text \<open>\<open>update({ where: { id }, data: { revokedAt } })\<close>: the row with that primary key.\<close>

fun setRevokedAt :: "string \<Rightarrow> timestamp \<Rightarrow> share_link list \<Rightarrow> share_link list" where
  "setRevokedAt i t [] = []"
| "setRevokedAt i t (l # ls) =
     (if link_id l = i then l\<lparr>link_revokedAt := Some t\<rparr> # ls
      else l # setRevokedAt i t ls)"

definition revokeReportShareLink ::
  "store \<Rightarrow> timestamp \<Rightarrow> string \<Rightarrow> revoke_response \<times> store"
where
  "revokeReportShareLink db now i =
     (case findLinkById db i of
        None \<Rightarrow> (RevokeNotFound, db)
      | Some row \<Rightarrow>
          let link = \<lparr>rv_id = link_id row, rv_revokedAt = link_revokedAt row\<rparr> in
          if rv_revokedAt link \<noteq> None then (AlreadyRevoked link, db)
          else (Revoked (row\<lparr>link_revokedAt := Some now\<rparr>),
                db\<lparr>shareLinks := setRevokedAt i now (shareLinks db)\<rparr>))"

section \<open>The subsystem as a state machine\<close>

text \<open>The four requests the routers dispatch, and their effect on the store.\<close>

datatype request =
    CreateLink create_env string "string option"
  | ListLinks string
  | RevokeLink timestamp string
  | ResolveToken timestamp string

fun step :: "store \<Rightarrow> request \<Rightarrow> store" where
  "step db (CreateLink env planId userId) =
     fst (snd (createPlanReportShareLink env db planId userId))"
| "step db (ListLinks planId) = db"
| "step db (RevokeLink now i) = snd (revokeReportShareLink db now i)"
| "step db (ResolveToken now token) = db"

definition run :: "store \<Rightarrow> request list \<Rightarrow> store" where
  "run db reqs = foldl step db reqs"

section \<open>Notions used to state the properties\<close>

text \<open>The token of attempt \<open>k\<close> and what the persistence layer answers to it.\<close>

definition attemptToken :: "create_env \<Rightarrow> nat \<Rightarrow> string" where
  "attemptToken env k = generateShareToken (env_randomBytes env k) 32"

definition attemptOutcome ::
  "create_env \<Rightarrow> store \<Rightarrow> string \<Rightarrow> string \<Rightarrow> timestamp \<Rightarrow> nat
   \<Rightarrow> thrown + (share_link \<times> store)"
where
  "attemptOutcome env db planId userId expiresAt k =
     reportShareLink_create db (env_newId env k) (env_createdAt env k) (env_fault env k)
       (attemptToken env k) planId userId expiresAt"

text \<open>An attempt is retried when it threw an error whose code is \<open>P2002\<close>.\<close>

definition retried :: "thrown + (share_link \<times> store) \<Rightarrow> bool" where
  "retried out = (case out of Inl e \<Rightarrow> isUniqueViolation e | Inr _ \<Rightarrow> False)"

text \<open>The same store with other creators recorded on its share links.\<close>

definition setCreators :: "(share_link \<Rightarrow> string) \<Rightarrow> store \<Rightarrow> store" where
  "setCreators c db =
     db\<lparr>shareLinks := map (\<lambda>l. l\<lparr>link_createdByUserId := c l\<rparr>) (shareLinks db)\<rparr>"

section \<open>Example data\<close>

text \<open>
  Folder \<open>AB\<close> lies under the root folder \<open>A\<close>; the parent of \<open>XYZ\<close> does not exist.
\<close>

definition exampleFolders :: "folder list" where
  "exampleFolders =
     [\<lparr>folder_id = ''A'', folder_name = ''a'', folder_parentId = None\<rparr>,
      \<lparr>folder_id = ''AB'', folder_name = ''b'', folder_parentId = Some ''A''\<rparr>,
      \<lparr>folder_id = ''XYZ'', folder_name = ''c'', folder_parentId = Some ''gone''\<rparr>]"

definition item1 :: plan_item where
  "item1 = \<lparr>item_id = ''I1'', item_planId = ''P1'', item_order = 2,
            item_testCase = \<lparr>tc_id = ''T1'', tc_sequence = 1, tc_folderId = Some ''AB''\<rparr>\<rparr>"

definition item2 :: plan_item where
  "item2 = \<lparr>item_id = ''I2'', item_planId = ''P1'', item_order = 1,
            item_testCase = \<lparr>tc_id = ''T2'', tc_sequence = 5, tc_folderId = None\<rparr>\<rparr>"

definition item3 :: plan_item where
  "item3 = \<lparr>item_id = ''I3'', item_planId = ''P1'', item_order = 1,
            item_testCase = \<lparr>tc_id = ''T3'', tc_sequence = 3, tc_folderId = Some ''XYZ''\<rparr>\<rparr>"

definition item4 :: plan_item where
  "item4 = \<lparr>item_id = ''I4'', item_planId = ''P2'', item_order = 0,
            item_testCase = \<lparr>tc_id = ''T1'', tc_sequence = 1, tc_folderId = Some ''AB''\<rparr>\<rparr>"

definition planP1 :: plan where
  "planP1 = \<lparr>plan_id = ''P1'', plan_name = ''release''\<rparr>"

text \<open>
  Three links: a live one, a revoked one, and one whose plan is missing. The token of
  the revoked link is the encoding of 32 zero bytes.
\<close>

definition linkLive :: share_link where
  "linkLive = \<lparr>link_id = ''L1'', link_token = ''live'', link_planId = ''P1'',
               link_createdByUserId = ''u1'', link_createdAt = 1000, link_expiresAt = 5000,
               link_revokedAt = None\<rparr>"

definition linkRevoked :: share_link where
  "linkRevoked = \<lparr>link_id = ''L2'',
                  link_token = ''AAAAAAAAAAAAAAAAAAAAAAAAAAAAAAAAAAAAAAAAAAA'',
                  link_planId = ''P1'', link_createdByUserId = ''u2'',
                  link_createdAt = 2000, link_expiresAt = 5000,
                  link_revokedAt = Some 2500\<rparr>"

definition linkOrphan :: share_link where
  "linkOrphan = \<lparr>link_id = ''L3'', link_token = ''orphan'', link_planId = ''P9'',
                 link_createdByUserId = ''u1'', link_createdAt = 1500, link_expiresAt = 5000,
                 link_revokedAt = None\<rparr>"

definition exampleStore :: store where
  "exampleStore =
     \<lparr>plans = [planP1], planItems = [item1, item2, item3, item4],
      folders = exampleFolders, shareLinks = [linkLive, linkRevoked, linkOrphan]\<rparr>"

text \<open>
  A plan whose two items agree on \<open>order\<close> and on the \<open>sequence\<close> of their test cases,
  and its report with the items in either order.
\<close>

definition itemX :: plan_item where
  "itemX = \<lparr>item_id = ''IX'', item_planId = ''P1'', item_order = 0,
            item_testCase = \<lparr>tc_id = ''TX'', tc_sequence = 1, tc_folderId = None\<rparr>\<rparr>"

definition itemY :: plan_item where
  "itemY = \<lparr>item_id = ''IY'', item_planId = ''P1'', item_order = 0,
            item_testCase = \<lparr>tc_id = ''TY'', tc_sequence = 1, tc_folderId = None\<rparr>\<rparr>"

definition tieStore :: store where
  "tieStore = \<lparr>plans = [planP1], planItems = [itemX, itemY], folders = [],
               shareLinks = [linkLive]\<rparr>"

definition tieShare :: share_view where
  "tieShare = \<lparr>sv_id = ''L1'', sv_token = ''live'', sv_planId = ''P1'',
               sv_createdAt = 1000, sv_expiresAt = 5000, sv_revokedAt = None\<rparr>"

definition tiePayloadXY :: report_payload where
  "tiePayloadXY =
     \<lparr>rp_share = tieShare,
      rp_plan = \<lparr>pv_plan = planP1,
        pv_items = [\<lparr>iv_item = itemX, iv_folder = None, iv_folderPath = []\<rparr>,
                    \<lparr>iv_item = itemY, iv_folder = None, iv_folderPath = []\<rparr>]\<rparr>\<rparr>"

definition tiePayloadYX :: report_payload where
  "tiePayloadYX =
     \<lparr>rp_share = tieShare,
      rp_plan = \<lparr>pv_plan = planP1,
        pv_items = [\<lparr>iv_item = itemY, iv_folder = None, iv_folderPath = []\<rparr>,
                    \<lparr>iv_item = itemX, iv_folder = None, iv_folderPath = []\<rparr>]\<rparr>\<rparr>"

text \<open>The report of plan \<open>P1\<close> as the live link resolves it.\<close>

definition examplePayload :: report_payload where
  "examplePayload =
     \<lparr>rp_share = \<lparr>sv_id = ''L1'', sv_token = ''live'', sv_planId = ''P1'',
                   sv_createdAt = 1000, sv_expiresAt = 5000, sv_revokedAt = None\<rparr>,
      rp_plan = \<lparr>pv_plan = planP1,
        pv_items =
          [\<lparr>iv_item = item3,
            iv_folder = Some \<lparr>folder_id = ''XYZ'', folder_name = ''c'',
                              folder_parentId = Some ''gone''\<rparr>,
            iv_folderPath = [\<lparr>crumb_id = ''XYZ'', crumb_name = ''c''\<rparr>]\<rparr>,
           \<lparr>iv_item = item2, iv_folder = None, iv_folderPath = []\<rparr>,
           \<lparr>iv_item = item1,
            iv_folder = Some \<lparr>folder_id = ''AB'', folder_name = ''b'',
                              folder_parentId = Some ''A''\<rparr>,
            iv_folderPath = [\<lparr>crumb_id = ''A'', crumb_name = ''a''\<rparr>,
                             \<lparr>crumb_id = ''AB'', crumb_name = ''b''\<rparr>]\<rparr>]\<rparr>\<rparr>"

text \<open>
  A server in UTC whose database clock is four milliseconds ahead of the handler's
  reading; attempt \<open>k\<close> draws 32 bytes of value \<open>k\<close>.
\<close>

definition utcZone :: timezone where
  "utcZone = \<lparr>tza_at_utc = (\<lambda>t. 0), tza_at_local = (\<lambda>t. 0)\<rparr>"

definition exampleEnv :: create_env where
  "exampleEnv =
     \<lparr>env_tz = utcZone, env_now = 1767780000000,
      env_randomBytes = (\<lambda>k n. replicate n (of_nat k)),
      env_newId = (\<lambda>k. ''N'' @ replicate k (CHR ''x'')),
      env_createdAt = (\<lambda>k. 1767780000004 + int k),
      env_fault = (\<lambda>k. None)\<rparr>"

definition examplePlans :: store where
  "examplePlans = \<lparr>plans = [planP1], planItems = [], folders = [], shareLinks = []\<rparr>"

text \<open>
  The same environment with a persistence layer that cannot reach the database server
  (Prisma code \<open>P1001\<close>).
\<close>

definition faultyEnv :: create_env where
  "faultyEnv = exampleEnv\<lparr>env_fault := (\<lambda>k. Some (ErrorWithCode ''P1001''))\<rparr>"

text \<open>
  An environment whose first generated primary key is the \<open>id\<close> of an existing share
  link, while its tokens are new; and the link it creates at the second attempt.
\<close>

definition pkEnv :: create_env where
  "pkEnv = exampleEnv\<lparr>env_randomBytes := (\<lambda>k n. replicate n (of_nat (Suc k))),
                        env_newId := (\<lambda>k. if k = 0 then ''L1'' else ''N'')\<rparr>"

definition pkLink :: share_link where
  "pkLink =
     \<lparr>link_id = ''N'', link_token = ''AgICAgICAgICAgICAgICAgICAgICAgICAgICAgICAgI'',
      link_planId = ''P1'', link_createdByUserId = ''u1'',
      link_createdAt = 1767780000005, link_expiresAt = 1768384800000,
      link_revokedAt = None\<rparr>"

text \<open>
  The example store with another revoked record under the same \<open>id\<close> and the same
  \<open>revokedAt\<close>: token, creator and timestamps differ.
\<close>

definition linkRevokedOther :: share_link where
  "linkRevokedOther = \<lparr>link_id = ''L2'', link_token = ''other'', link_planId = ''P1'',
                       link_createdByUserId = ''u7'', link_createdAt = 1200,
                       link_expiresAt = 4000, link_revokedAt = Some 2500\<rparr>"

definition otherStore :: store where
  "otherStore = exampleStore\<lparr>shareLinks := [linkLive, linkRevokedOther, linkOrphan]\<rparr>"

definition exampleLink :: share_link where
  "exampleLink =
     \<lparr>link_id = ''N'', link_token = ''AAAAAAAAAAAAAAAAAAAAAAAAAAAAAAAAAAAAAAAAAAA'',
      link_planId = ''P1'', link_createdByUserId = ''u1'',
      link_createdAt = 1767780000004, link_expiresAt = 1768384800000,
      link_revokedAt = None\<rparr>"

text \<open>The link created at the second attempt, after the first token collided.\<close>

definition exampleLink2 :: share_link where
  "exampleLink2 =
     \<lparr>link_id = ''Nx'', link_token = ''AQEBAQEBAQEBAQEBAQEBAQEBAQEBAQEBAQEBAQEBAQE'',
      link_planId = ''P1'', link_createdByUserId = ''u1'',
      link_createdAt = 1767780000005, link_expiresAt = 1768384800000,
      link_revokedAt = None\<rparr>"

section \<open>Properties of the folder walk\<close>

lemma loop_falsy: "\<not> truthy cur \<Longrightarrow> getFolderPath_loop fs cur path = Some path"
  by (subst getFolderPath_loop.simps) simp

lemma loop_missing:
  "truthy cur \<Longrightarrow> findFolder fs (the cur) = None \<Longrightarrow> getFolderPath_loop fs cur path = Some path"
  by (subst getFolderPath_loop.simps) simp

lemma loop_step:
  "truthy cur \<Longrightarrow> findFolder fs (the cur) = Some f \<Longrightarrow>
   getFolderPath_loop fs cur path =
   getFolderPath_loop fs (folder_parentId f)
     (\<lparr>crumb_id = folder_id f, crumb_name = folder_name f\<rparr> # path)"
  by (subst getFolderPath_loop.simps) simp

lemma loop_breadcrumbs:
  assumes "getFolderPath_loop fs cur acc = Some r"
  shows "\<exists>pre. r = pre @ acc \<and> breadcrumbs fs cur pre"
proof -
  have step: "\<exists>pre. r' = pre @ acc' \<and> breadcrumbs fs' cur' pre"
    if ih: "\<And>a b c d. loop a b c = Some d \<Longrightarrow> \<exists>pre. d = pre @ c \<and> breadcrumbs a b pre"
    and body: "(if truthy cur' then
        (case findFolder fs' (the cur') of
           None \<Rightarrow> Some acc'
         | Some folder \<Rightarrow>
             loop fs' (folder_parentId folder)
               (\<lparr>crumb_id = folder_id folder, crumb_name = folder_name folder\<rparr> # acc'))
      else Some acc') = Some r'"
    for loop fs' cur' acc' r'
  proof (cases "truthy cur'")
    case False
    with body show ?thesis by (auto intro: bc_falsy)
  next
    case True
    show ?thesis
    proof (cases "findFolder fs' (the cur')")
      case None
      with True body show ?thesis by (auto intro: bc_missing)
    next
      case (Some f)
      with True body have "loop fs' (folder_parentId f)
          (\<lparr>crumb_id = folder_id f, crumb_name = folder_name f\<rparr> # acc') = Some r'"
        by simp
      from ih[OF this] obtain pre where
        pre: "r' = pre @ \<lparr>crumb_id = folder_id f, crumb_name = folder_name f\<rparr> # acc'"
        "breadcrumbs fs' (folder_parentId f) pre" by blast
      from bc_step[OF True Some pre(2)] pre(1) show ?thesis by auto
    qed
  qed
  show ?thesis
    by (rule getFolderPath_loop.raw_induct
        [where P = "\<lambda>fs cur acc r. \<exists>pre. r = pre @ acc \<and> breadcrumbs fs cur pre", OF step assms])
qed

lemma loop_terminates:
  assumes rk: "\<forall>f\<in>set fs. \<forall>p. folder_parentId f = Some p \<longrightarrow> p \<noteq> [] \<longrightarrow>
                 rank p < (rank (folder_id f) :: nat)"
  shows "\<exists>r. getFolderPath_loop fs cur path = Some r"
proof (induction "rank (the cur)" arbitrary: cur path rule: less_induct)
  case less
  show ?case
  proof (cases "truthy cur")
    case False
    then show ?thesis by (simp add: loop_falsy)
  next
    case True
    show ?thesis
    proof (cases "findFolder fs (the cur)")
      case None
      with True show ?thesis by (simp add: loop_missing)
    next
      case (Some f)
      then have fin: "f \<in> set fs" and fid: "folder_id f = the cur"
        by (auto simp: findFolder_def find_Some_iff)
      show ?thesis
      proof (cases "truthy (folder_parentId f)")
        case False
        with True Some show ?thesis by (simp add: loop_step loop_falsy)
      next
        case T2: True
        then obtain p where p: "folder_parentId f = Some p" "p \<noteq> []"
          by (cases "folder_parentId f") auto
        from rk fin p fid have "rank (the (folder_parentId f)) < rank (the cur)"
          by auto
        from less[OF this] True Some show ?thesis by (simp add: loop_step)
      qed
    qed
  qed
qed

lemma getFolderPath_null: "getFolderPath fs None = Some []"
  by (simp add: getFolderPath_def)

lemma getFolderPath_breadcrumbs:
  "getFolderPath fs fid = Some r \<Longrightarrow> breadcrumbs fs fid r"
  by (auto simp: getFolderPath_def bc_falsy dest: loop_breadcrumbs split: if_splits)

lemma loop_self_never:
  assumes "getFolderPath_loop fs cur p = Some y"
  shows "\<not> (fs = [\<lparr>folder_id = ''A'', folder_name = ''a'', folder_parentId = Some ''A''\<rparr>]
            \<and> cur = Some ''A'')"
proof -
  let ?fs = "[\<lparr>folder_id = ''A'', folder_name = ''a'', folder_parentId = Some ''A''\<rparr>]"
  have step: "\<not> (fs' = ?fs \<and> cur' = Some ''A'')"
    if ih: "\<And>a b c d. loop a b c = Some d \<Longrightarrow> \<not> (a = ?fs \<and> b = Some ''A'')"
    and body: "(if truthy cur' then
        (case findFolder fs' (the cur') of
           None \<Rightarrow> Some p'
         | Some folder \<Rightarrow>
             loop fs' (folder_parentId folder)
               (\<lparr>crumb_id = folder_id folder, crumb_name = folder_name folder\<rparr> # p'))
      else Some p') = Some y'"
    for loop fs' cur' p' y'
  proof
    assume a: "fs' = ?fs \<and> cur' = Some ''A''"
    with body have "loop ?fs (Some ''A'') (\<lparr>crumb_id = ''A'', crumb_name = ''a''\<rparr> # p') = Some y'"
      by (simp add: findFolder_def)
    from ih[OF this] show False by simp
  qed
  show ?thesis
    by (rule getFolderPath_loop.raw_induct
        [where P = "\<lambda>fs cur p y. \<not> (fs = ?fs \<and> cur = Some ''A'')", OF step assms])
qed

text \<open>
  C3, as amended. With a cycle of parent references the walk does not return (see the
  counterexample below). When the parent references of the folder table strictly
  decrease some rank, that is, when there is no cycle, the walk returns for every
  starting reference, and what it returns are the breadcrumbs from the root-most folder
  it finds down to the starting folder: it stops at a null parent and at the first
  folder that is missing. A dangling \<open>parentId\<close> is allowed.
\<close>

theorem getFolderPath_terminates_acyclic:
  assumes "\<forall>f\<in>set fs. \<forall>p. folder_parentId f = Some p \<longrightarrow> p \<noteq> [] \<longrightarrow>
             rank p < (rank (folder_id f) :: nat)"
  shows "\<exists>path. getFolderPath fs folderId = Some path \<and> breadcrumbs fs folderId path"
proof -
  from loop_terminates[OF assms, of folderId "[]"]
  have "\<exists>r. getFolderPath fs folderId = Some r"
    by (simp add: getFolderPath_def)
  then show ?thesis by (auto dest: getFolderPath_breadcrumbs)
qed

text \<open>
  The counterexample to C3 as stated: a folder that is its own parent. The walk from it
  never returns.
\<close>

theorem getFolderPath_cycle_counterexample:
  "getFolderPath [\<lparr>folder_id = ''A'', folder_name = ''a'', folder_parentId = Some ''A''\<rparr>]
     (Some ''A'') = None"
proof (cases "getFolderPath_loop
    [\<lparr>folder_id = ''A'', folder_name = ''a'', folder_parentId = Some ''A''\<rparr>] (Some ''A'') []")
  case None
  then show ?thesis by (simp add: getFolderPath_def)
next
  case (Some r)
  from loop_self_never[OF this] show ?thesis by simp
qed

section \<open>Properties of the resolver\<close>

lemma those_withFolderPath_items:
  "those (map (withFolderPath fs) xs) = Some vs \<Longrightarrow> map iv_item vs = xs"
proof (induction xs arbitrary: vs)
  case Nil
  then show ?case by simp
next
  case (Cons x xs)
  then show ?case
    by (auto simp: withFolderPath_def split: option.splits)
qed

lemma those_withFolderPath_paths:
  "those (map (withFolderPath fs) xs) = Some vs \<Longrightarrow> v \<in> set vs \<Longrightarrow>
   getFolderPath fs (tc_folderId (item_testCase (iv_item v))) = Some (iv_folderPath v)"
proof (induction xs arbitrary: vs)
  case Nil
  then show ?case by simp
next
  case (Cons x xs)
  then show ?case
    by (auto simp: withFolderPath_def split: option.splits)
qed

lemma those_withFolderPath_total:
  "(\<forall>x\<in>set xs. getFolderPath fs (tc_folderId (item_testCase x)) \<noteq> None) \<Longrightarrow>
   \<exists>vs. those (map (withFolderPath fs) xs) = Some vs"
proof (induction xs)
  case Nil
  then show ?case by simp
next
  case (Cons x xs)
  then show ?case
    by (auto simp: withFolderPath_def split: option.splits)
qed

lemma findLinkByToken_None_iff:
  "findLinkByToken db token = None \<longleftrightarrow> token \<notin> link_token ` set (shareLinks db)"
  by (auto simp: findLinkByToken_def find_None_iff)

text \<open>
  C1. A token that no share link carries resolves to 404. A link that is revoked or
  whose \<open>expiresAt\<close> is not after \<open>now\<close> resolves to 410, and so does a live link
  whose plan is missing. A 404 answer is given only for a token that no share link
  carries.
\<close>

theorem resolve_error_results:
  "(token \<notin> link_token ` set (shareLinks db) \<longrightarrow>
      getPublicPlanReportByToken scan db now token = Some LinkNotFound) \<and>
   (\<forall>row. findLinkByToken db token = Some row \<longrightarrow>
      (link_revokedAt row \<noteq> None \<or> link_expiresAt row \<le> now) \<longrightarrow>
      getPublicPlanReportByToken scan db now token = Some LinkGone) \<and>
   (\<forall>row. findLinkByToken db token = Some row \<longrightarrow>
      link_revokedAt row = None \<longrightarrow> now < link_expiresAt row \<longrightarrow>
      findPlan db (link_planId row) = None \<longrightarrow>
      getPublicPlanReportByToken scan db now token = Some PlanGone) \<and>
   (\<forall>r. getPublicPlanReportByToken scan db now token = Some r \<longrightarrow> resolve_status r = 404 \<longrightarrow>
      token \<notin> link_token ` set (shareLinks db)) \<and>
   resolve_status LinkNotFound = 404 \<and> resolve_status LinkGone = 410 \<and>
   resolve_status PlanGone = 410"
proof -
  have a: "token \<notin> link_token ` set (shareLinks db) \<Longrightarrow>
      getPublicPlanReportByToken scan db now token = Some LinkNotFound"
    using findLinkByToken_None_iff[of db token]
    by (simp add: getPublicPlanReportByToken_def)
  have b: "findLinkByToken db token = Some row \<Longrightarrow>
      link_revokedAt row \<noteq> None \<or> link_expiresAt row \<le> now \<Longrightarrow>
      getPublicPlanReportByToken scan db now token = Some LinkGone" for row
    by (auto simp: getPublicPlanReportByToken_def selectPublic_def)
  have c: "findLinkByToken db token = Some row \<Longrightarrow>
      link_revokedAt row = None \<Longrightarrow> now < link_expiresAt row \<Longrightarrow>
      findPlan db (link_planId row) = None \<Longrightarrow>
      getPublicPlanReportByToken scan db now token = Some PlanGone" for row
    by (simp add: getPublicPlanReportByToken_def selectPublic_def)
  have d: "getPublicPlanReportByToken scan db now token = Some r \<Longrightarrow> resolve_status r = 404 \<Longrightarrow>
      token \<notin> link_token ` set (shareLinks db)" for r
  proof (cases "findLinkByToken db token")
    case None
    then show ?thesis by (simp add: findLinkByToken_None_iff)
  next
    case (Some row)
    assume "getPublicPlanReportByToken scan db now token = Some r" "resolve_status r = 404"
    with Some have False
      by (auto simp: getPublicPlanReportByToken_def Let_def split: if_splits option.splits)
    then show ?thesis ..
  qed
  from a b c d show ?thesis by simp
qed


lemma find_map_fun:
  "(\<And>x. P (g x) = P x) \<Longrightarrow> find P (map g xs) = map_option g (find P xs)"
  by (induction xs) auto

lemma findLinkByToken_setCreators:
  "findLinkByToken (setCreators c db) token =
   map_option (\<lambda>l. l\<lparr>link_createdByUserId := c l\<rparr>) (findLinkByToken db token)"
  by (simp add: findLinkByToken_def setCreators_def find_map_fun)

lemma resolve_setCreators:
  "getPublicPlanReportByToken scan (setCreators c db) now token =
   getPublicPlanReportByToken scan db now token"
proof (cases "findLinkByToken db token")
  case None
  then show ?thesis
    by (simp add: getPublicPlanReportByToken_def findLinkByToken_setCreators)
next
  case (Some row)
  have sel: "selectPublic (row\<lparr>link_createdByUserId := c row\<rparr>) = selectPublic row"
    by (simp add: selectPublic_def)
  have rest: "findPlan (setCreators c db) = findPlan db"
    "folders (setCreators c db) = folders db"
    "loadItems scan (setCreators c db) = loadItems scan db"
    by (simp_all add: fun_eq_iff findPlan_def loadItems_def setCreators_def)
  show ?thesis
    unfolding getPublicPlanReportByToken_def findLinkByToken_setCreators Some rest
    by (simp add: sel)
qed

text \<open>
  C9. The response of the resolver does not depend on who created the share links: it
  is the same for two stores that differ only in \<open>createdByUserId\<close>. The \<open>share\<close>
  part of a successful response consists of the six fields id, token, planId, createdAt,
  expiresAt and revokedAt of the link.
\<close>

theorem resolve_hides_creator:
  "getPublicPlanReportByToken scan (setCreators c db) now token =
     getPublicPlanReportByToken scan db now token \<and>
   (\<forall>payload. getPublicPlanReportByToken scan db now token = Some (ReportOk payload) \<longrightarrow>
      (\<exists>row. findLinkByToken db token = Some row \<and>
         rp_share payload =
           \<lparr>sv_id = link_id row, sv_token = link_token row, sv_planId = link_planId row,
            sv_createdAt = link_createdAt row, sv_expiresAt = link_expiresAt row,
            sv_revokedAt = link_revokedAt row\<rparr>))"
proof -
  have "\<exists>row. findLinkByToken db token = Some row \<and> rp_share payload = selectPublic row"
    if "getPublicPlanReportByToken scan db now token = Some (ReportOk payload)" for payload
    using that
    by (auto simp: getPublicPlanReportByToken_def Let_def split: option.splits if_splits)
  then show ?thesis
    by (simp add: resolve_setCreators selectPublic_def)
qed

text \<open>
  C10. For a live link to an existing plan, when the walk of every item that has a folder
  returns, the resolver succeeds with the items of the plan, and every item whose test
  case has a null \<open>folderId\<close> carries the empty \<open>folderPath\<close>.
\<close>

theorem resolve_null_folder:
  assumes link: "findLinkByToken db token = Some row"
    and live: "link_revokedAt row = None" "now < link_expiresAt row"
    and plan: "findPlan db (link_planId row) = Some p"
    and others: "\<forall>i\<in>set (loadItems scan db (plan_id p)).
                   tc_folderId (item_testCase i) \<noteq> None \<longrightarrow>
                   getFolderPath (folders db) (tc_folderId (item_testCase i)) \<noteq> None"
  shows "\<exists>payload. getPublicPlanReportByToken scan db now token = Some (ReportOk payload) \<and>
           map iv_item (pv_items (rp_plan payload)) = loadItems scan db (plan_id p) \<and>
           (\<forall>v\<in>set (pv_items (rp_plan payload)).
              tc_folderId (item_testCase (iv_item v)) = None \<longrightarrow> iv_folderPath v = [])"
proof -
  have "\<forall>i\<in>set (loadItems scan db (plan_id p)).
          getFolderPath (folders db) (tc_folderId (item_testCase i)) \<noteq> None"
    using others by (auto simp: getFolderPath_null)
  from those_withFolderPath_total[OF this]
  obtain vs where vs: "those (map (withFolderPath (folders db)) (loadItems scan db (plan_id p))) = Some vs"
    by blast
  let ?payload = "\<lparr>rp_share = selectPublic row, rp_plan = \<lparr>pv_plan = p, pv_items = vs\<rparr>\<rparr>"
  have res: "getPublicPlanReportByToken scan db now token = Some (ReportOk ?payload)"
    using link live plan vs
    by (simp add: getPublicPlanReportByToken_def selectPublic_def)
  have items: "map iv_item vs = loadItems scan db (plan_id p)"
    by (rule those_withFolderPath_items[OF vs])
  have paths: "iv_folderPath v = []"
    if "v \<in> set vs" "tc_folderId (item_testCase (iv_item v)) = None" for v
    using those_withFolderPath_paths[OF vs that(1)] that(2)
    by (simp add: getFolderPath_null)
  from res items paths show ?thesis by auto
qed

lemma resolve_ok_items:
  assumes "getPublicPlanReportByToken scan db now token = Some (ReportOk payload)"
  shows "map iv_item (pv_items (rp_plan payload)) =
         loadItems scan db (plan_id (pv_plan (rp_plan payload)))"
  using assms
  by (auto simp: getPublicPlanReportByToken_def Let_def
      dest: those_withFolderPath_items split: option.splits if_splits)

lemma itemKey_le_iff:
  "itemKey a \<le> itemKey b \<longleftrightarrow>
   item_order a < item_order b \<or>
   (item_order a = item_order b \<and>
    tc_sequence (item_testCase a) \<le> tc_sequence (item_testCase b))"
  by (auto simp: itemKey_def less_eq_prod_def)

lemma loadItems_sorted:
  "sorted_wrt (\<lambda>a b. item_order a < item_order b \<or>
      (item_order a = item_order b \<and>
       tc_sequence (item_testCase a) \<le> tc_sequence (item_testCase b)))
     (loadItems scan db pid)"
proof -
  have "sorted (map itemKey (loadItems scan db pid))"
    by (simp add: loadItems_def)
  then have "sorted_wrt (\<lambda>a b. itemKey a \<le> itemKey b) (loadItems scan db pid)"
    by (simp add: sorted_map)
  then show ?thesis by (simp add: itemKey_le_iff)
qed

lemma loadItems_mset:
  "\<forall>xs. mset (scan xs) = mset xs \<Longrightarrow>
   mset (loadItems scan db pid) = filter_mset (\<lambda>i. item_planId i = pid) (mset (planItems db))"
  by (simp add: loadItems_def)

lemma loadItems_keys_perm:
  assumes "\<forall>xs. mset (scan xs) = mset xs" "\<forall>xs. mset (scan' xs) = mset xs"
    and "mset (planItems db') = mset (planItems db)"
  shows "map itemKey (loadItems scan' db' pid) = map itemKey (loadItems scan db pid)"
proof -
  have "mset (map itemKey (loadItems scan' db' pid)) = mset (map itemKey (loadItems scan db pid))"
    using assms by (simp add: loadItems_mset)
  moreover have "sorted (map itemKey (loadItems scan' db' pid))"
    "sorted (map itemKey (loadItems scan db pid))"
    by (simp_all add: loadItems_def)
  ultimately show ?thesis
    by (metis properties_for_sort)
qed

lemma loadItems_perm_distinct:
  assumes engines: "\<forall>xs. mset (scan xs) = mset xs" "\<forall>xs. mset (scan' xs) = mset xs"
    and perm: "mset (planItems db') = mset (planItems db)"
    and dist: "distinct (map itemKey (loadItems scan db pid))"
  shows "loadItems scan' db' pid = loadItems scan db pid"
proof -
  have keys: "map itemKey (loadItems scan' db' pid) = map itemKey (loadItems scan db pid)"
    by (rule loadItems_keys_perm[OF engines perm])
  have "mset (loadItems scan' db' pid) = mset (loadItems scan db pid)"
    using engines perm by (simp add: loadItems_mset)
  then have "set (loadItems scan' db' pid) = set (loadItems scan db pid)"
    by (rule mset_eq_setD)
  moreover have "inj_on itemKey (set (loadItems scan db pid))"
    using dist by (simp add: distinct_map)
  ultimately have "inj_on itemKey (set (loadItems scan' db' pid) \<union> set (loadItems scan db pid))"
    by simp
  from inj_on_map_eq_map[OF this] keys show ?thesis by simp
qed

text \<open>
  C7, as amended. In a successful response the items are exactly the items of the plan,
  sorted on \<open>order\<close> ascending and, among equal \<open>order\<close>, on the \<open>sequence\<close> of the test
  case ascending. Whatever order the engine produces the rows in, another request for the
  same plan on the same stored rows returns the same sequence of keys, and it returns
  the same list of items when no two items of the plan agree on both keys. The order of
  items that agree on both keys is not determined (see the counterexample below).
\<close>

theorem resolve_items_ordered:
  assumes ok: "getPublicPlanReportByToken scan db now token = Some (ReportOk payload)"
    and engine: "\<forall>xs. mset (scan xs) = mset xs"
  shows "sorted_wrt (\<lambda>a b. item_order a < item_order b \<or>
            (item_order a = item_order b \<and>
             tc_sequence (item_testCase a) \<le> tc_sequence (item_testCase b)))
           (map iv_item (pv_items (rp_plan payload))) \<and>
         mset (map iv_item (pv_items (rp_plan payload))) =
           filter_mset (\<lambda>i. item_planId i = plan_id (pv_plan (rp_plan payload)))
             (mset (planItems db)) \<and>
         (\<forall>scan' db' now' token' payload'.
            (\<forall>xs. mset (scan' xs) = mset xs) \<and>
            getPublicPlanReportByToken scan' db' now' token' = Some (ReportOk payload') \<and>
            plan_id (pv_plan (rp_plan payload')) = plan_id (pv_plan (rp_plan payload)) \<and>
            mset (planItems db') = mset (planItems db) \<longrightarrow>
            map itemKey (map iv_item (pv_items (rp_plan payload'))) =
              map itemKey (map iv_item (pv_items (rp_plan payload))) \<and>
            (distinct (map itemKey (map iv_item (pv_items (rp_plan payload)))) \<longrightarrow>
               map iv_item (pv_items (rp_plan payload')) =
               map iv_item (pv_items (rp_plan payload))))"
proof -
  let ?pid = "plan_id (pv_plan (rp_plan payload))"
  have its: "map iv_item (pv_items (rp_plan payload)) = loadItems scan db ?pid"
    by (rule resolve_ok_items[OF ok])
  have repro: "map itemKey (map iv_item (pv_items (rp_plan payload'))) =
        map itemKey (loadItems scan db ?pid) \<and>
      (distinct (map itemKey (loadItems scan db ?pid)) \<longrightarrow>
        map iv_item (pv_items (rp_plan payload')) = loadItems scan db ?pid)"
    if engine': "\<forall>xs. mset (scan' xs) = mset xs"
      and ok': "getPublicPlanReportByToken scan' db' now' token' = Some (ReportOk payload')"
      and pid': "plan_id (pv_plan (rp_plan payload')) = ?pid"
      and perm: "mset (planItems db') = mset (planItems db)"
    for scan' db' now' token' payload'
  proof -
    have its': "map iv_item (pv_items (rp_plan payload')) = loadItems scan' db' ?pid"
      using resolve_ok_items[OF ok'] pid' by simp
    show ?thesis
      unfolding its'
      using loadItems_perm_distinct[OF engine engine' perm, of ?pid]
        loadItems_keys_perm[OF engine engine' perm, of ?pid]
      by auto
  qed
  show ?thesis
    unfolding its
    using loadItems_sorted[of scan db ?pid] loadItems_mset[OF engine, of db ?pid] repro
    by (intro conjI allI impI) blast+
qed

text \<open>
  The counterexample to C7 as stated: two items of one plan with the same \<open>order\<close> whose
  test cases have the same \<open>sequence\<close>. On the same stored state the response lists them
  in the one order or in the other, as the engine produces the rows.
\<close>

theorem resolve_items_tie_counterexample:
  "getPublicPlanReportByToken id tieStore 3000 ''live'' = Some (ReportOk tiePayloadXY) \<and>
   getPublicPlanReportByToken rev tieStore 3000 ''live'' = Some (ReportOk tiePayloadYX) \<and>
   tiePayloadXY \<noteq> tiePayloadYX \<and>
   itemKey itemX = itemKey itemY"
proof -
  have link: "findLinkByToken tieStore ''live'' = Some linkLive"
    by (simp add: findLinkByToken_def tieStore_def linkLive_def)
  have sel: "selectPublic linkLive = tieShare"
    by (simp add: selectPublic_def linkLive_def tieShare_def)
  have live: "sv_revokedAt tieShare = None" "\<not> sv_expiresAt tieShare \<le> 3000"
    "sv_planId tieShare = ''P1''"
    by (simp_all add: tieShare_def)
  have plan: "findPlan tieStore ''P1'' = Some planP1"
    by (simp add: findPlan_def tieStore_def planP1_def)
  have key: "itemKey itemX = itemKey itemY"
    by (simp add: itemKey_def itemX_def itemY_def)
  have rows: "filter (\<lambda>i. item_planId i = plan_id planP1) (planItems tieStore) = [itemX, itemY]"
    by (simp add: tieStore_def planP1_def itemX_def itemY_def)
  have xy: "loadItems id tieStore (plan_id planP1) = [itemX, itemY]"
    unfolding loadItems_def rows by (simp add: key)
  have yx: "loadItems rev tieStore (plan_id planP1) = [itemY, itemX]"
    unfolding loadItems_def rows by (simp add: key)
  have view: "withFolderPath (folders tieStore) itemX =
      Some \<lparr>iv_item = itemX, iv_folder = None, iv_folderPath = []\<rparr>"
    "withFolderPath (folders tieStore) itemY =
      Some \<lparr>iv_item = itemY, iv_folder = None, iv_folderPath = []\<rparr>"
    by (simp_all add: withFolderPath_def includeFolder_def getFolderPath_null itemX_def itemY_def)
  have a: "getPublicPlanReportByToken id tieStore 3000 ''live'' = Some (ReportOk tiePayloadXY)"
    unfolding getPublicPlanReportByToken_def link
    by (simp add: sel live plan xy view tiePayloadXY_def)
  have b: "getPublicPlanReportByToken rev tieStore 3000 ''live'' = Some (ReportOk tiePayloadYX)"
    unfolding getPublicPlanReportByToken_def link
    by (simp add: sel live plan yx view tiePayloadYX_def)
  have c: "tiePayloadXY \<noteq> tiePayloadYX"
    by (simp add: tiePayloadXY_def tiePayloadYX_def itemX_def itemY_def)
  from a b c key show ?thesis by simp
qed

section \<open>Properties of the share-link service\<close>

declare createLoop.simps [simp del]

lemma createLoop_done:
  "\<not> k < 5 \<Longrightarrow> createLoop env db planId userId expiresAt k = (CreateRetriesExhausted, db, [])"
  by (subst createLoop.simps) simp

lemma createLoop_created:
  "k < 5 \<Longrightarrow> attemptOutcome env db planId userId expiresAt k = Inr (l, db') \<Longrightarrow>
   createLoop env db planId userId expiresAt k = (Created l, db', [attemptToken env k])"
  by (subst createLoop.simps) (simp add: attemptOutcome_def attemptToken_def)

lemma createLoop_error:
  "k < 5 \<Longrightarrow> attemptOutcome env db planId userId expiresAt k = Inl e \<Longrightarrow>
   \<not> isUniqueViolation e \<Longrightarrow>
   createLoop env db planId userId expiresAt k = (CreateServerError, db, [attemptToken env k])"
  by (subst createLoop.simps) (simp add: attemptOutcome_def attemptToken_def)

lemma createLoop_retry:
  "k < 5 \<Longrightarrow> attemptOutcome env db planId userId expiresAt k = Inl e \<Longrightarrow>
   isUniqueViolation e \<Longrightarrow>
   createLoop env db planId userId expiresAt k =
     (case createLoop env db planId userId expiresAt (k + 1) of
        (res, db', tokens) \<Rightarrow> (res, db', attemptToken env k # tokens))"
  by (subst createLoop.simps) (simp add: attemptOutcome_def attemptToken_def)

lemma createLoop_cases:
  obtains (exhausted) "\<not> k < 5"
  | (created) l db' where "k < 5" "attemptOutcome env db planId userId expiresAt k = Inr (l, db')"
  | (failed) e where "k < 5" "attemptOutcome env db planId userId expiresAt k = Inl e"
      "\<not> isUniqueViolation e"
  | (again) e where "k < 5" "attemptOutcome env db planId userId expiresAt k = Inl e"
      "isUniqueViolation e"
  by (cases "attemptOutcome env db planId userId expiresAt k") auto

lemma upt_shift: "[k..<k + Suc n] = k # [Suc k..<Suc k + n]"
  by (subst upt_rec) simp

text \<open>What one run of the loop from attempt \<open>k\<close> satisfies.\<close>

lemma createLoop_trace:
  "createLoop env db planId userId expiresAt k = (res, db', tokens) \<Longrightarrow>
   k + length tokens \<le> max k 5 \<and> tokens = map (attemptToken env) [k..<k + length tokens]"
proof (induction "5 - k" arbitrary: k res db' tokens)
  case 0
  then show ?case by (simp add: createLoop_done)
next
  case (Suc n)
  then have k: "k < 5" by simp
  show ?case
  proof (cases rule: createLoop_cases[where k=k and env=env and db=db and planId=planId and userId=userId and expiresAt=expiresAt])
    case exhausted
    with k show ?thesis by simp
  next
    case (created l d)
    with Suc.prems show ?thesis by (auto simp: createLoop_created)
  next
    case (failed e)
    with Suc.prems show ?thesis by (auto simp: createLoop_error)
  next
    case (again e)
    obtain r d t where rec: "createLoop env db planId userId expiresAt (k + 1) = (r, d, t)"
      by (cases "createLoop env db planId userId expiresAt (k + 1)") auto
    from Suc.hyps(2) have "n = 5 - (k + 1)" by simp
    from Suc.hyps(1)[OF this rec]
    have ih: "k + 1 + length t \<le> max (k + 1) 5" "t = map (attemptToken env) [k + 1..<k + 1 + length t]"
      by simp_all
    from Suc.prems again rec have tk: "tokens = attemptToken env k # t"
      by (simp add: createLoop_retry)
    have e1: "[k..<k + length tokens] = k # [k + 1..<k + 1 + length t]"
      using upt_shift[of k "length t"] tk by simp
    have "map (attemptToken env) [k..<k + length tokens] =
          attemptToken env k # map (attemptToken env) [k + 1..<k + 1 + length t]"
      by (simp only: e1 list.map)
    also have "\<dots> = attemptToken env k # t"
      by (simp only: ih(2)[symmetric])
    finally have "tokens = map (attemptToken env) [k..<k + length tokens]"
      using tk by simp
    moreover have "k + length tokens \<le> max k 5"
      using ih(1) tk k by simp
    ultimately show ?thesis by simp
  qed
qed


lemma createLoop_outcomes:
  "createLoop env db planId userId expiresAt k = (res, db', tokens) \<Longrightarrow> k \<le> 5 \<Longrightarrow>
   (\<forall>j. k \<le> j \<and> Suc j < k + length tokens \<longrightarrow>
        retried (attemptOutcome env db planId userId expiresAt j)) \<and>
   (case res of
      Created l \<Rightarrow> tokens \<noteq> [] \<and>
        attemptOutcome env db planId userId expiresAt (k + length tokens - 1) = Inr (l, db')
    | CreateServerError \<Rightarrow> tokens \<noteq> [] \<and> db' = db \<and>
        (\<exists>e. attemptOutcome env db planId userId expiresAt (k + length tokens - 1) = Inl e \<and>
             \<not> isUniqueViolation e)
    | CreateRetriesExhausted \<Rightarrow> db' = db \<and> k + length tokens = 5 \<and>
        (\<forall>j. k \<le> j \<and> j < 5 \<longrightarrow> retried (attemptOutcome env db planId userId expiresAt j))
    | _ \<Rightarrow> False)"
proof (induction "5 - k" arbitrary: k res db' tokens)
  case 0
  then show ?case by (auto simp: createLoop_done)
next
  case (Suc n)
  then have k: "k < 5" by simp
  show ?case
  proof (cases rule: createLoop_cases[where k=k and env=env and db=db and planId=planId
        and userId=userId and expiresAt=expiresAt])
    case exhausted
    with k show ?thesis by simp
  next
    case (created l d)
    with Suc.prems show ?thesis by (auto simp: createLoop_created)
  next
    case (failed e)
    with Suc.prems show ?thesis by (auto simp: createLoop_error)
  next
    case (again e)
    obtain r d t where rec: "createLoop env db planId userId expiresAt (k + 1) = (r, d, t)"
      by (cases "createLoop env db planId userId expiresAt (k + 1)") auto
    from Suc.hyps(2) have n: "n = 5 - (k + 1)" by simp
    from k have k1: "k + 1 \<le> 5" by simp
    note ih = Suc.hyps(1)[OF n rec k1]
    from Suc.prems again rec have eq: "res = r" "db' = d" "tokens = attemptToken env k # t"
      by (simp_all add: createLoop_retry)
    have here: "retried (attemptOutcome env db planId userId expiresAt k)"
      using again by (simp add: retried_def)
    have before: "retried (attemptOutcome env db planId userId expiresAt j)"
      if "k \<le> j" "Suc j < k + length tokens" for j
    proof (cases "j = k")
      case True
      with here show ?thesis by simp
    next
      case False
      with that eq have "k + 1 \<le> j \<and> Suc j < k + 1 + length t" by simp
      with ih show ?thesis by blast
    qed
    have all: "retried (attemptOutcome env db planId userId expiresAt j)"
      if "k \<le> j" "j < 5"
        "\<forall>j. k + 1 \<le> j \<and> j < 5 \<longrightarrow> retried (attemptOutcome env db planId userId expiresAt j)"
      for j
      using that here by (cases "j = k") auto
    have idx: "t \<noteq> [] \<Longrightarrow> k + length tokens - 1 = k + 1 + length t - 1"
      using eq by simp
    show ?thesis
    proof (cases r)
      case Unauthorized
      with ih show ?thesis by simp
    next
      case CreatePlanNotFound
      with ih show ?thesis by simp
    next
      case (Created l)
      with ih eq idx before show ?thesis by auto
    next
      case CreateRetriesExhausted
      with ih eq before all show ?thesis by auto
    next
      case CreateServerError
      with ih eq idx before show ?thesis by auto
    qed
  qed
qed


lemma isUniqueViolation_iff: "isUniqueViolation e \<longleftrightarrow> e = ErrorWithCode ''P2002''"
  by (cases e) auto

lemma retried_iff: "retried out \<longleftrightarrow> out = Inl (ErrorWithCode ''P2002'')"
  by (auto simp: retried_def isUniqueViolation_iff split: sum.splits)

lemma outcome_fault:
  "env_fault env k = Some e \<Longrightarrow> attemptOutcome env db planId userId expiresAt k = Inl e"
  by (simp add: attemptOutcome_def reportShareLink_create_def)

lemma outcome_no_fault:
  assumes "env_fault env k = None"
  shows "attemptOutcome env db planId userId expiresAt k = Inl (ErrorWithCode ''P2002'') \<longleftrightarrow>
         env_newId env k \<in> link_id ` set (shareLinks db) \<or>
         attemptToken env k \<in> link_token ` set (shareLinks db)"
proof -
  have t: "findLinkByToken db (attemptToken env k) \<noteq> None \<longleftrightarrow>
        attemptToken env k \<in> link_token ` set (shareLinks db)"
    by (force simp: findLinkByToken_def find_None_iff)
  have i: "findLinkById db (env_newId env k) \<noteq> None \<longleftrightarrow>
        env_newId env k \<in> link_id ` set (shareLinks db)"
    by (force simp: findLinkById_def find_None_iff)
  from assms t i show ?thesis
    by (simp add: attemptOutcome_def reportShareLink_create_def Let_def)
qed

text \<open>
  C5, as amended. For an authenticated caller: when the plan does not exist the answer is
  404 and nothing is persisted. Otherwise the handler calls the persistence layer at most
  five times, attempt \<open>k\<close> with the token generated from the \<open>k\<close>-th random draw. A
  further attempt follows exactly an attempt that threw an error with code \<open>P2002\<close>, as
  long as attempts remain; an attempt that throws any other error ends the request with
  500 at once; and when all five attempts throw \<open>P2002\<close> the answer is 500 and nothing
  is persisted. A failure of the persistence layer is thrown as it is. Without one,
  \<open>P2002\<close> is thrown exactly when the generated primary key or the token already belongs
  to a share link: the code \<open>P2002\<close> does not tell the two unique constraints of the table
  apart (see the counterexample below).
\<close>

theorem create_retry_policy:
  assumes auth: "truthy userId"
    and run: "createPlanReportShareLink env db planId userId = (res, db', tokens)"
    and exp: "expiresAt = addDays (env_tz env) (env_now env) SHARE_EXPIRES_DAYS"
  shows "(findPlan db planId = None \<longrightarrow>
            res = CreatePlanNotFound \<and> create_status res = 404 \<and> db' = db \<and> tokens = []) \<and>
         (findPlan db planId \<noteq> None \<longrightarrow>
           length tokens \<le> 5 \<and>
           tokens = map (\<lambda>k. generateShareToken (env_randomBytes env k) 32) [0..<length tokens] \<and>
           (\<forall>k. Suc k < length tokens \<longrightarrow>
                attemptOutcome env db planId (the userId) expiresAt k =
                  Inl (ErrorWithCode ''P2002'')) \<and>
           (\<forall>k. k < length tokens \<and>
                attemptOutcome env db planId (the userId) expiresAt k =
                  Inl (ErrorWithCode ''P2002'') \<longrightarrow>
                Suc k < length tokens \<or> (k = 4 \<and> res = CreateRetriesExhausted)) \<and>
           (\<forall>k e. k < length tokens \<and>
                  attemptOutcome env db planId (the userId) expiresAt k = Inl e \<and>
                  e \<noteq> ErrorWithCode ''P2002'' \<longrightarrow>
                  res = CreateServerError \<and> create_status res = 500 \<and>
                  length tokens = Suc k \<and> db' = db) \<and>
           ((\<forall>k<5. attemptOutcome env db planId (the userId) expiresAt k =
                     Inl (ErrorWithCode ''P2002'')) \<longrightarrow>
              res = CreateRetriesExhausted \<and> create_status res = 500 \<and>
              length tokens = 5 \<and> db' = db) \<and>
           (\<forall>k e. env_fault env k = Some e \<longrightarrow>
              attemptOutcome env db planId (the userId) expiresAt k = Inl e) \<and>
           (\<forall>k. env_fault env k = None \<longrightarrow>
              (attemptOutcome env db planId (the userId) expiresAt k =
                 Inl (ErrorWithCode ''P2002'') \<longleftrightarrow>
               env_newId env k \<in> link_id ` set (shareLinks db) \<or>
               generateShareToken (env_randomBytes env k) 32
                 \<in> link_token ` set (shareLinks db))))"
proof -
  have missing: "findPlan db planId = None \<longrightarrow>
          res = CreatePlanNotFound \<and> create_status res = 404 \<and> db' = db \<and> tokens = []"
    using auth run by (auto simp: createPlanReportShareLink_def)
  have present: "length tokens \<le> 5 \<and>
           tokens = map (\<lambda>k. generateShareToken (env_randomBytes env k) 32) [0..<length tokens] \<and>
           (\<forall>k. Suc k < length tokens \<longrightarrow>
                attemptOutcome env db planId (the userId) expiresAt k =
                  Inl (ErrorWithCode ''P2002'')) \<and>
           (\<forall>k. k < length tokens \<and>
                attemptOutcome env db planId (the userId) expiresAt k =
                  Inl (ErrorWithCode ''P2002'') \<longrightarrow>
                Suc k < length tokens \<or> (k = 4 \<and> res = CreateRetriesExhausted)) \<and>
           (\<forall>k e. k < length tokens \<and>
                  attemptOutcome env db planId (the userId) expiresAt k = Inl e \<and>
                  e \<noteq> ErrorWithCode ''P2002'' \<longrightarrow>
                  res = CreateServerError \<and> create_status res = 500 \<and>
                  length tokens = Suc k \<and> db' = db) \<and>
           ((\<forall>k<5. attemptOutcome env db planId (the userId) expiresAt k =
                     Inl (ErrorWithCode ''P2002'')) \<longrightarrow>
              res = CreateRetriesExhausted \<and> create_status res = 500 \<and>
              length tokens = 5 \<and> db' = db) \<and>
           (\<forall>k e. env_fault env k = Some e \<longrightarrow>
              attemptOutcome env db planId (the userId) expiresAt k = Inl e) \<and>
           (\<forall>k. env_fault env k = None \<longrightarrow>
              (attemptOutcome env db planId (the userId) expiresAt k =
                 Inl (ErrorWithCode ''P2002'') \<longleftrightarrow>
               env_newId env k \<in> link_id ` set (shareLinks db) \<or>
               generateShareToken (env_randomBytes env k) 32
                 \<in> link_token ` set (shareLinks db)))"
    if plan: "findPlan db planId \<noteq> None"
  proof -
    from plan auth run exp
    have loop: "createLoop env db planId (the userId) expiresAt 0 = (res, db', tokens)"
      by (auto simp: createPlanReportShareLink_def Let_def)
    let ?out = "attemptOutcome env db planId (the userId) expiresAt"
    let ?dup = "Inl (ErrorWithCode ''P2002'') :: thrown + (share_link \<times> store)"
    from createLoop_trace[OF loop]
    have len: "length tokens \<le> 5"
      and trace: "tokens = map (attemptToken env) [0..<length tokens]"
      by simp_all
    have tok: "attemptToken env = (\<lambda>k. generateShareToken (env_randomBytes env k) 32)"
      by (simp add: fun_eq_iff attemptToken_def)
    from createLoop_outcomes[OF loop]
    have before: "\<forall>j. Suc j < length tokens \<longrightarrow> ?out j = ?dup"
      and last: "case res of
          Created l \<Rightarrow> tokens \<noteq> [] \<and> ?out (length tokens - 1) = Inr (l, db')
        | CreateServerError \<Rightarrow> tokens \<noteq> [] \<and> db' = db \<and>
            (\<exists>e. ?out (length tokens - 1) = Inl e \<and> \<not> isUniqueViolation e)
        | CreateRetriesExhausted \<Rightarrow> db' = db \<and> length tokens = 5 \<and>
            (\<forall>j. j < 5 \<longrightarrow> retried (?out j))
        | _ \<Rightarrow> False"
      by (simp_all add: retried_iff cong: create_response.case_cong)
    have again: "Suc k < length tokens \<or> (k = 4 \<and> res = CreateRetriesExhausted)"
      if "k < length tokens" "?out k = ?dup" for k
    proof (cases "Suc k < length tokens")
      case True
      then show ?thesis ..
    next
      case False
      with that(1) have k: "length tokens = Suc k" by simp
      show ?thesis
      proof (cases res)
        case (Created l)
        with last k that(2) show ?thesis by simp
      next
        case CreateRetriesExhausted
        with last k show ?thesis by simp
      next
        case CreateServerError
        with last k that(2) show ?thesis by (auto simp: isUniqueViolation_iff)
      qed (use last in simp_all)
    qed
    have notretried: "res = CreateServerError \<and> create_status res = 500 \<and>
        length tokens = Suc k \<and> db' = db"
      if "k < length tokens" "?out k = Inl e" "e \<noteq> ErrorWithCode ''P2002''" for k e
    proof -
      from that before have "\<not> Suc k < length tokens" by auto
      with that(1) have k: "length tokens = Suc k" by simp
      show ?thesis
      proof (cases res)
        case (Created l)
        with last k that(2) show ?thesis by simp
      next
        case CreateRetriesExhausted
        with last k have "retried (?out k)" by simp
        with that(2,3) show ?thesis by (simp add: retried_iff)
      next
        case CreateServerError
        with last k show ?thesis by simp
      qed (use last in simp_all)
    qed
    have exhausted: "res = CreateRetriesExhausted \<and> create_status res = 500 \<and>
        length tokens = 5 \<and> db' = db"
      if all: "\<forall>k<5. ?out k = ?dup"
    proof (cases res)
      case (Created l)
      with last len have "length tokens - 1 < 5" "?out (length tokens - 1) \<noteq> ?dup"
        by auto
      with all show ?thesis by blast
    next
      case CreateServerError
      with last len have "length tokens - 1 < 5" "?out (length tokens - 1) \<noteq> ?dup"
        by (auto simp: isUniqueViolation_iff)
      with all show ?thesis by blast
    next
      case CreateRetriesExhausted
      with last show ?thesis by simp
    qed (use last in simp_all)
    have fault: "?out k = Inl e" if "env_fault env k = Some e" for k e
      using that by (rule outcome_fault)
    have nofault: "?out k = ?dup \<longleftrightarrow>
        env_newId env k \<in> link_id ` set (shareLinks db) \<or>
        generateShareToken (env_randomBytes env k) 32 \<in> link_token ` set (shareLinks db)"
      if "env_fault env k = None" for k
      using outcome_no_fault[OF that] by (simp add: attemptToken_def)
    have trace': "tokens =
        map (\<lambda>k. generateShareToken (env_randomBytes env k) 32) [0..<length tokens]"
      using trace unfolding tok .
    from len trace' before again notretried exhausted fault nofault
    show ?thesis
      by (intro conjI; blast)
  qed
  from missing present show ?thesis by blast
qed

lemma addDays_eq:
  "addDays tz date days =
   date + days * msPerDay +
   (tza_at_utc tz date - tza_at_local tz (date + tza_at_utc tz date + days * msPerDay))"
proof -
  have "MakeDate (Day t + days) (TimeWithinDay t) = t + days * msPerDay" for t
    by (simp add: MakeDate_def Day_def TimeWithinDay_def algebra_simps)
  then show ?thesis
    by (simp add: addDays_def Let_def LocalTime_def UTC_def)
qed

lemma token_zero:
  "generateShareToken (\<lambda>n. replicate n 0) 32 = ''AAAAAAAAAAAAAAAAAAAAAAAAAAAAAAAAAAAAAAAAAAA''"
  by code_simp

lemma example_create:
  "createPlanReportShareLink exampleEnv examplePlans ''P1'' (Some ''u1'') =
     (Created exampleLink, examplePlans\<lparr>shareLinks := [exampleLink]\<rparr>,
      [''AAAAAAAAAAAAAAAAAAAAAAAAAAAAAAAAAAAAAAAAAAA''])"
  unfolding createPlanReportShareLink_def
  by (subst createLoop.simps)
    (simp add: reportShareLink_create_def findPlan_def findLinkById_def
      findLinkByToken_def exampleEnv_def examplePlans_def exampleLink_def planP1_def
      addDays_eq utcZone_def SHARE_EXPIRES_DAYS_def msPerDay_def token_zero Let_def)

lemma create_created_row:
  assumes "createPlanReportShareLink env db planId userId = (Created l, db', tokens)"
  shows "tokens \<noteq> [] \<and> length tokens \<le> 5 \<and>
         l = \<lparr>link_id = env_newId env (length tokens - 1), link_token = last tokens,
              link_planId = planId, link_createdByUserId = the userId,
              link_createdAt = env_createdAt env (length tokens - 1),
              link_expiresAt = addDays (env_tz env) (env_now env) SHARE_EXPIRES_DAYS,
              link_revokedAt = None\<rparr> \<and>
         db' = db\<lparr>shareLinks := shareLinks db @ [l]\<rparr>"
proof -
  let ?exp = "addDays (env_tz env) (env_now env) SHARE_EXPIRES_DAYS"
  from assms have loop: "createLoop env db planId (the userId) ?exp 0 = (Created l, db', tokens)"
    by (auto simp: createPlanReportShareLink_def Let_def split: if_splits option.splits)
  from createLoop_trace[OF loop]
  have len: "length tokens \<le> 5" and tr: "tokens = map (attemptToken env) [0..<length tokens]"
    by simp_all
  from createLoop_outcomes[OF loop]
  have ne: "tokens \<noteq> []"
    and out: "attemptOutcome env db planId (the userId) ?exp (length tokens - 1) = Inr (l, db')"
    by simp_all
  from ne have "last tokens = tokens ! (length tokens - 1)"
    by (simp add: last_conv_nth)
  also have "\<dots> = map (attemptToken env) [0..<length tokens] ! (length tokens - 1)"
    using tr by simp
  also have "\<dots> = attemptToken env (length tokens - 1)"
    using ne by simp
  finally have lt: "last tokens = attemptToken env (length tokens - 1)" .
  from out lt ne len show ?thesis
    by (auto simp: attemptOutcome_def reportShareLink_create_def Let_def
        split: option.splits if_splits)
qed

text \<open>
  C2, as amended. The \<open>expiresAt\<close> of a created link is \<open>addDays(now, 7)\<close> for the
  handler's clock reading \<open>now\<close>: seven local calendar days later, which is
  \<open>now + 7 * 24\<close> hours corrected by the change of the local UTC offset between the two
  instants. The \<open>createdAt\<close> of the link is the column default taken at the successful
  insert. With an unchanged UTC offset, \<open>expiresAt = createdAt + 7\<close> days holds exactly
  when that default equals \<open>now\<close>.
\<close>

theorem create_expiry:
  assumes "createPlanReportShareLink env db planId userId = (Created l, db', tokens)"
  shows "link_expiresAt l = addDays (env_tz env) (env_now env) SHARE_EXPIRES_DAYS \<and>
         link_expiresAt l =
           env_now env + 7 * (24 * 60 * 60 * 1000) +
           (tza_at_utc (env_tz env) (env_now env) -
            tza_at_local (env_tz env)
              (env_now env + tza_at_utc (env_tz env) (env_now env) + 7 * (24 * 60 * 60 * 1000))) \<and>
         link_createdAt l = env_createdAt env (length tokens - 1) \<and>
         (tza_at_local (env_tz env)
              (env_now env + tza_at_utc (env_tz env) (env_now env) + 7 * (24 * 60 * 60 * 1000))
            = tza_at_utc (env_tz env) (env_now env) \<longrightarrow>
          (link_expiresAt l = link_createdAt l + 7 * (24 * 60 * 60 * 1000) \<longleftrightarrow>
           env_createdAt env (length tokens - 1) = env_now env))"
proof -
  from create_created_row[OF assms]
  have e: "link_expiresAt l = addDays (env_tz env) (env_now env) SHARE_EXPIRES_DAYS"
    and c: "link_createdAt l = env_createdAt env (length tokens - 1)"
    by (metis share_link.select_convs(6), metis share_link.select_convs(5))
  show ?thesis
    unfolding e c addDays_eq SHARE_EXPIRES_DAYS_def msPerDay_def by auto
qed


text \<open>
  The counterexample to C2 as stated: the database fills \<open>createdAt\<close> four milliseconds
  after the handler read its clock, the server is in UTC, and the created link expires
  four milliseconds less than seven days after its \<open>createdAt\<close>.
\<close>

theorem create_expiry_counterexample:
  "createPlanReportShareLink exampleEnv examplePlans ''P1'' (Some ''u1'') =
     (Created exampleLink, examplePlans\<lparr>shareLinks := [exampleLink]\<rparr>,
      [''AAAAAAAAAAAAAAAAAAAAAAAAAAAAAAAAAAAAAAAAAAA'']) \<and>
   link_expiresAt exampleLink \<noteq> link_createdAt exampleLink + 7 * (24 * 60 * 60 * 1000)"
  by (simp add: example_create) (simp add: exampleLink_def)

text \<open>
  C6. Listing the links of a missing plan answers 404. For an existing plan the answer
  holds every share link of the plan, whatever its \<open>expiresAt\<close> and \<open>revokedAt\<close>, each
  once, with \<open>createdAt\<close> descending.
\<close>

theorem list_all_newest_first:
  "(findPlan db planId = None \<longrightarrow>
      listPlanReportShareLinks db planId = ListPlanNotFound \<and>
      list_status (listPlanReportShareLinks db planId) = 404) \<and>
   (findPlan db planId \<noteq> None \<longrightarrow>
      (\<exists>links. listPlanReportShareLinks db planId = ListOk links \<and>
         mset links = filter_mset (\<lambda>l. link_planId l = planId) (mset (shareLinks db)) \<and>
         set links = {l \<in> set (shareLinks db). link_planId l = planId} \<and>
         sorted_wrt (\<lambda>a b. link_createdAt a \<ge> link_createdAt b) links))"
proof -
  let ?rows = "filter (\<lambda>l. link_planId l = planId) (shareLinks db)"
  let ?links = "sort_key (\<lambda>l. - link_createdAt l) ?rows"
  have "sorted (map (\<lambda>l. - link_createdAt l) ?links)"
    by (rule sorted_sort_key)
  then have "sorted_wrt (\<lambda>a b. - link_createdAt a \<le> - link_createdAt b) ?links"
    by (simp only: sorted_map)
  then have srt: "sorted_wrt (\<lambda>a b. link_createdAt a \<ge> link_createdAt b) ?links"
    by simp
  have ms: "mset ?links = filter_mset (\<lambda>l. link_planId l = planId) (mset (shareLinks db))"
    by simp
  have st: "set ?links = {l \<in> set (shareLinks db). link_planId l = planId}"
    by auto
  from srt ms st show ?thesis
    by (auto simp: listPlanReportShareLinks_def split: option.splits)
qed

lemma find_append_Some:
  "find P xs = Some x \<Longrightarrow> find P (xs @ ys) = Some x"
  by (induction xs) (auto split: if_splits)

lemma find_setRevokedAt_other:
  "i \<noteq> j \<Longrightarrow>
   find (\<lambda>l. link_id l = i) (setRevokedAt j t ls) = find (\<lambda>l. link_id l = i) ls"
  by (induction ls) auto

lemma create_store:
  assumes "createPlanReportShareLink env db planId userId = (res, db', tokens)"
  shows "db' = db \<or> (\<exists>l. db' = db\<lparr>shareLinks := shareLinks db @ [l]\<rparr>)"
proof (cases res)
  case (Created l)
  with create_created_row[of env db planId userId l db' tokens] assms show ?thesis by blast
next
  case Unauthorized
  with assms show ?thesis
    by (auto simp: createPlanReportShareLink_def Let_def split: if_splits option.splits
        dest: createLoop_outcomes)
next
  case CreatePlanNotFound
  with assms show ?thesis
    by (auto simp: createPlanReportShareLink_def Let_def split: if_splits option.splits
        dest: createLoop_outcomes)
next
  case CreateRetriesExhausted
  with assms show ?thesis
    by (auto simp: createPlanReportShareLink_def Let_def split: if_splits option.splits
        dest: createLoop_outcomes)
next
  case CreateServerError
  with assms show ?thesis
    by (auto simp: createPlanReportShareLink_def Let_def split: if_splits option.splits
        dest: createLoop_outcomes)
qed

lemma step_keeps_revoked:
  assumes "findLinkById db i = Some row" "link_revokedAt row \<noteq> None"
  shows "findLinkById (step db req) i = Some row"
proof (cases req)
  case (CreateLink env planId userId)
  obtain res db' tokens where r: "createPlanReportShareLink env db planId userId = (res, db', tokens)"
    by (cases "createPlanReportShareLink env db planId userId") auto
  from create_store[OF r] assms(1) have "findLinkById db' i = Some row"
    by (auto simp: findLinkById_def find_append_Some)
  with CreateLink r show ?thesis by simp
next
  case (ListLinks planId)
  with assms show ?thesis by simp
next
  case (RevokeLink now j)
  show ?thesis
  proof (cases "j = i")
    case True
    with assms RevokeLink show ?thesis
      by (auto simp: revokeReportShareLink_def)
  next
    case False
    then have "findLinkById (snd (revokeReportShareLink db now j)) i = findLinkById db i"
      using find_setRevokedAt_other[of i j now "shareLinks db"]
      by (auto simp: revokeReportShareLink_def findLinkById_def Let_def split: option.splits)
    with assms RevokeLink show ?thesis by simp
  qed
next
  case (ResolveToken now token)
  with assms show ?thesis by simp
qed

lemma run_keeps_revoked:
  "findLinkById db i = Some row \<Longrightarrow> link_revokedAt row \<noteq> None \<Longrightarrow>
   findLinkById (run db reqs) i = Some row"
  unfolding run_def
  by (induction reqs arbitrary: db) (auto dest: step_keeps_revoked)

text \<open>
  What holds of a repeated revoke: it answers 200 with the \<open>id\<close> and the unchanged
  \<open>revokedAt\<close> of the record and leaves the store as it is; and after any sequence of
  requests to the subsystem the link is still the same row, with the same \<open>revokedAt\<close>.
\<close>

theorem revoke_idempotent:
  assumes "findLinkById db i = Some row" "link_revokedAt row = Some t"
  shows "revokeReportShareLink db now i =
           (AlreadyRevoked \<lparr>rv_id = link_id row, rv_revokedAt = Some t\<rparr>, db) \<and>
         revoke_status (fst (revokeReportShareLink db now i)) = 200 \<and>
         findLinkById (snd (revokeReportShareLink db now i)) i = Some row \<and>
         (\<forall>reqs. findLinkById (run db reqs) i = Some row)"
proof -
  have "revokeReportShareLink db now i =
      (AlreadyRevoked \<lparr>rv_id = link_id row, rv_revokedAt = Some t\<rparr>, db)"
    using assms by (simp add: revokeReportShareLink_def)
  moreover have "findLinkById (run db reqs) i = Some row" for reqs
    using assms by (simp add: run_keeps_revoked)
  ultimately show ?thesis using assms(1) by simp
qed


section \<open>Properties of the token generator\<close>

lemma alphabet_length: "length base64url_alphabet = 64"
  by (simp add: base64url_alphabet_def)

lemma alphabet_distinct: "distinct base64url_alphabet"
  by (simp add: base64url_alphabet_def)

lemma alphabet_no_pad: "CHR ''='' \<notin> set base64url_alphabet"
  by (simp add: base64url_alphabet_def)

lemma byte_bound: "unat (a :: byte) < 256"
  using unsigned_less[of a, where ?'a = nat] by simp

lemma sextet_bounds:
  "unat (a :: byte) div 4 < 64"
  "(unat (a :: byte) mod 4) * 16 < 64"
  "(unat (a :: byte) mod 4) * 16 + unat (b :: byte) div 16 < 64"
  "(unat (b :: byte) mod 16) * 4 < 64"
  "(unat (b :: byte) mod 16) * 4 + unat (c :: byte) div 64 < 64"
  "unat (c :: byte) mod 64 < 64"
  using byte_bound[of a] byte_bound[of b] byte_bound[of c] by simp_all

lemma encode64_length: "length (encode64 al False xs) = (4 * length xs + 2) div 3"
  by (induction al "False" xs rule: encode64.induct) simp_all

lemma encode64_set:
  "length al = 64 \<Longrightarrow> set (encode64 al False xs) \<subseteq> set al"
  by (induction al "False" xs rule: encode64.induct) (simp_all add: sextet_bounds)

lemma nth_alphabet_inj:
  "distinct al \<Longrightarrow> i < length al \<Longrightarrow> j < length al \<Longrightarrow> al ! i = al ! j \<Longrightarrow> i = j"
  by (simp add: nth_eq_iff_index_eq)

lemma split_eq:
  assumes "(a::nat) * n + r = a' * n + r'" "r < n" "r' < n"
  shows "a = a' \<and> r = r'"
proof -
  from assms(2,3) have "(a * n + r) div n = a" "(a' * n + r') div n = a'" by simp_all
  with assms(1) have "a = a'" by simp
  with assms(1) show ?thesis by simp
qed

lemma div_mod_eq:
  "(x::nat) div n = x' div n \<Longrightarrow> x mod n = x' mod n \<Longrightarrow> x = x'"
  by (metis div_mult_mod_eq)

lemma byte1_eq:
  assumes "unat (a :: byte) div 4 = unat (a' :: byte) div 4"
    "(unat a mod 4) * 16 = (unat a' mod 4) * 16"
  shows "a = a'"
proof -
  from assms(2) have "unat a mod 4 = unat a' mod 4" by simp
  with assms(1) have "unat a = unat a'" by (rule div_mod_eq)
  then show ?thesis by (simp add: word_unat_eq_iff)
qed

lemma byte2_eq:
  assumes "unat (a :: byte) div 4 = unat (a' :: byte) div 4"
    "(unat a mod 4) * 16 + unat (b :: byte) div 16 = (unat a' mod 4) * 16 + unat (b' :: byte) div 16"
    "(unat b mod 16) * 4 = (unat b' mod 16) * 4"
  shows "a = a' \<and> b = b'"
proof -
  have "unat b div 16 < 16" "unat b' div 16 < 16"
    using byte_bound[of b] byte_bound[of b'] by simp_all
  from split_eq[OF assms(2) this]
  have m: "unat a mod 4 = unat a' mod 4" and d: "unat b div 16 = unat b' div 16" by simp_all
  from assms(3) have "unat b mod 16 = unat b' mod 16" by simp
  with d have "unat b = unat b'" by (rule div_mod_eq)
  moreover from assms(1) m have "unat a = unat a'" by (rule div_mod_eq)
  ultimately show ?thesis by (simp add: word_unat_eq_iff)
qed

lemma byte3_eq:
  assumes "unat (a :: byte) div 4 = unat (a' :: byte) div 4"
    "(unat a mod 4) * 16 + unat (b :: byte) div 16 = (unat a' mod 4) * 16 + unat (b' :: byte) div 16"
    "(unat b mod 16) * 4 + unat (c :: byte) div 64 = (unat b' mod 16) * 4 + unat (c' :: byte) div 64"
    "unat c mod 64 = unat c' mod 64"
  shows "a = a' \<and> b = b' \<and> c = c'"
proof -
  have "unat b div 16 < 16" "unat b' div 16 < 16"
    using byte_bound[of b] byte_bound[of b'] by simp_all
  from split_eq[OF assms(2) this]
  have m: "unat a mod 4 = unat a' mod 4" and d: "unat b div 16 = unat b' div 16" by simp_all
  have "unat c div 64 < 4" "unat c' div 64 < 4"
    using byte_bound[of c] byte_bound[of c'] by simp_all
  from split_eq[OF assms(3) this]
  have m2: "unat b mod 16 = unat b' mod 16" and d2: "unat c div 64 = unat c' div 64" by simp_all
  from d m2 have "unat b = unat b'" by (rule div_mod_eq)
  moreover from assms(1) m have "unat a = unat a'" by (rule div_mod_eq)
  moreover from d2 assms(4) have "unat c = unat c'" by (rule div_mod_eq)
  ultimately show ?thesis by (simp add: word_unat_eq_iff)
qed

lemma encode64_inj:
  "distinct al \<Longrightarrow> length al = 64 \<Longrightarrow> length xs = length ys \<Longrightarrow>
   encode64 al pad xs = encode64 al pad ys \<Longrightarrow> xs = ys"
proof (induction al pad xs arbitrary: ys rule: encode64.induct)
  case (1 al pad)
  then show ?case by simp
next
  case (2 al pad a)
  from "2.prems"(3) obtain a' where ys: "ys = [a']" by (cases ys) auto
  note inj = nth_alphabet_inj[OF "2.prems"(1)]
  from "2.prems"(4) ys have e: "al ! (unat a div 4) = al ! (unat a' div 4)"
    "al ! ((unat a mod 4) * 16) = al ! ((unat a' mod 4) * 16)" by simp_all
  have "unat a div 4 = unat a' div 4"
    by (rule inj[OF _ _ e(1)]) (simp_all add: "2.prems"(2) sextet_bounds)
  moreover have "(unat a mod 4) * 16 = (unat a' mod 4) * 16"
    by (rule inj[OF _ _ e(2)]) (simp_all add: "2.prems"(2) sextet_bounds)
  ultimately have "a = a'" by (rule byte1_eq)
  with ys show ?case by simp
next
  case (3 al pad a b)
  from "3.prems"(3) obtain a' b' where ys: "ys = [a', b']"
    by (cases ys; cases "tl ys") auto
  note inj = nth_alphabet_inj[OF "3.prems"(1)]
  from "3.prems"(4) ys have e: "al ! (unat a div 4) = al ! (unat a' div 4)"
    "al ! ((unat a mod 4) * 16 + unat b div 16) = al ! ((unat a' mod 4) * 16 + unat b' div 16)"
    "al ! ((unat b mod 16) * 4) = al ! ((unat b' mod 16) * 4)" by simp_all
  have "unat a div 4 = unat a' div 4"
    by (rule inj[OF _ _ e(1)]) (simp_all add: "3.prems"(2) sextet_bounds)
  moreover have "(unat a mod 4) * 16 + unat b div 16 = (unat a' mod 4) * 16 + unat b' div 16"
    by (rule inj[OF _ _ e(2)]) (simp_all add: "3.prems"(2) sextet_bounds)
  moreover have "(unat b mod 16) * 4 = (unat b' mod 16) * 4"
    by (rule inj[OF _ _ e(3)]) (simp_all add: "3.prems"(2) sextet_bounds)
  ultimately have "a = a' \<and> b = b'" by (rule byte2_eq)
  with ys show ?case by simp
next
  case (4 al pad a b c rest)
  from "4.prems"(3) obtain a' b' c' rest' where ys: "ys = a' # b' # c' # rest'"
    by (cases ys; cases "tl ys"; cases "tl (tl ys)") auto
  note inj = nth_alphabet_inj[OF "4.prems"(1)]
  from "4.prems"(4) ys have e: "al ! (unat a div 4) = al ! (unat a' div 4)"
    "al ! ((unat a mod 4) * 16 + unat b div 16) = al ! ((unat a' mod 4) * 16 + unat b' div 16)"
    "al ! ((unat b mod 16) * 4 + unat c div 64) = al ! ((unat b' mod 16) * 4 + unat c' div 64)"
    "al ! (unat c mod 64) = al ! (unat c' mod 64)"
    and r: "encode64 al pad rest = encode64 al pad rest'" by simp_all
  have "unat a div 4 = unat a' div 4"
    by (rule inj[OF _ _ e(1)]) (simp_all add: "4.prems"(2) sextet_bounds)
  moreover have "(unat a mod 4) * 16 + unat b div 16 = (unat a' mod 4) * 16 + unat b' div 16"
    by (rule inj[OF _ _ e(2)]) (simp_all add: "4.prems"(2) sextet_bounds)
  moreover have "(unat b mod 16) * 4 + unat c div 64 = (unat b' mod 16) * 4 + unat c' div 64"
    by (rule inj[OF _ _ e(3)]) (simp_all add: "4.prems"(2) sextet_bounds)
  moreover have "unat c mod 64 = unat c' mod 64"
    by (rule inj[OF _ _ e(4)]) (simp_all add: "4.prems"(2) sextet_bounds)
  ultimately have hd: "a = a' \<and> b = b' \<and> c = c'" by (rule byte3_eq)
  from "4.prems"(3) ys have "length rest = length rest'" by simp
  from "4.IH"[OF "4.prems"(1,2) this r] have "rest = rest'" .
  with hd ys show ?case by simp
qed

lemma token_of_buffer:
  "randomBytes bytes \<noteq> [] \<Longrightarrow>
   generateShareToken randomBytes bytes = encode64 base64url_alphabet False (randomBytes bytes)"
proof -
  assume "randomBytes bytes \<noteq> []"
  then have "length (encode64 base64url_alphabet False (randomBytes bytes)) \<noteq> 0"
    unfolding encode64_length by (cases "randomBytes bytes") simp_all
  then show ?thesis
    by (simp add: generateShareToken_def toString_base64url_def Let_def)
qed

lemma generateShareToken_inj:
  assumes "length (r 32) = 32" "length (r' 32) = 32"
    and eq: "generateShareToken r 32 = generateShareToken r' 32"
  shows "r 32 = r' 32"
proof -
  from assms(1,2) have "r 32 \<noteq> []" "r' 32 \<noteq> []" by auto
  with eq have "encode64 base64url_alphabet False (r 32) = encode64 base64url_alphabet False (r' 32)"
    by (simp add: token_of_buffer)
  with assms(1,2) show ?thesis
    using encode64_inj[OF alphabet_distinct alphabet_length, of "r 32" "r' 32" False] by simp
qed

lemma card_buffers: "card {b :: byte list. length b = 32} = 2 ^ 256"
proof -
  have "card {b :: byte list. set b \<subseteq> UNIV \<and> length b = 32} = card (UNIV :: byte set) ^ 32"
    by (rule card_lists_length_eq) simp
  also have "\<dots> = (2 ^ 8) ^ 32" by (simp add: card_word)
  also have "\<dots> = (2 :: nat) ^ 256" by (simp add: power_mult [symmetric])
  finally show ?thesis by simp
qed

lemma card_tokens:
  "card ((\<lambda>b. generateShareToken (\<lambda>n. b) 32) ` {b. length b = 32}) = 2 ^ 256"
proof -
  have "inj_on (\<lambda>b. generateShareToken (\<lambda>n. b) 32) {b. length b = 32}"
    by (rule inj_onI) (use generateShareToken_inj in auto)
  from card_image[OF this] card_buffers show ?thesis by simp
qed

text \<open>
  C8. Asked for 32 bytes, the generator returns the unpadded base64url encoding of the
  32 bytes that \<open>crypto.randomBytes\<close> hands it: 43 characters, each from \<open>A-Z\<close>, \<open>a-z\<close>,
  \<open>0-9\<close>, \<open>-\<close> and \<open>_\<close>, none of them the padding character. Different buffers give
  different tokens, so the \<open>2 ^ 256\<close> buffers give \<open>2 ^ 256\<close> tokens, which is at least
  \<open>2 ^ 128\<close>. That the buffer comes from \<open>crypto.randomBytes\<close>, the cryptographically
  secure source of Node, is read off the source; the distribution of its output is
  outside this development.
\<close>

theorem generateShareToken_shape:
  assumes "length (randomBytes 32) = 32"
  shows "generateShareToken randomBytes 32 = toString_base64url (randomBytes 32) \<and>
         length (generateShareToken randomBytes 32) = 43 \<and>
         set (generateShareToken randomBytes 32) \<subseteq>
           set ''ABCDEFGHIJKLMNOPQRSTUVWXYZabcdefghijklmnopqrstuvwxyz0123456789-_'' \<and>
         CHR ''='' \<notin> set (generateShareToken randomBytes 32) \<and>
         (\<forall>r'. length (r' 32) = 32 \<and>
               generateShareToken r' 32 = generateShareToken randomBytes 32
            \<longrightarrow> r' 32 = randomBytes 32) \<and>
         card ((\<lambda>b. generateShareToken (\<lambda>n. b) 32) ` {b. length b = 32}) = 2 ^ 256 \<and>
         (2 :: nat) ^ 128 \<le> card ((\<lambda>b. generateShareToken (\<lambda>n. b) 32) ` {b. length b = 32})"
proof -
  from assms have ne: "randomBytes 32 \<noteq> []" by auto
  then have tok: "generateShareToken randomBytes 32 =
      encode64 base64url_alphabet False (randomBytes 32)"
    by (rule token_of_buffer)
  have len: "length (generateShareToken randomBytes 32) = 43"
    unfolding tok encode64_length using assms by simp
  have sub: "set (generateShareToken randomBytes 32) \<subseteq> set base64url_alphabet"
    unfolding tok by (rule encode64_set[OF alphabet_length])
  with alphabet_no_pad have nopad: "CHR ''='' \<notin> set (generateShareToken randomBytes 32)"
    by blast
  have inj: "r' 32 = randomBytes 32"
    if "length (r' 32) = 32" "generateShareToken r' 32 = generateShareToken randomBytes 32" for r'
    using generateShareToken_inj[OF that(1) assms that(2)] .
  have "(2 :: nat) ^ 128 \<le> 2 ^ 256"
    by (rule power_increasing) simp_all
  with card_tokens
  have big: "(2 :: nat) ^ 128 \<le> card ((\<lambda>b. generateShareToken (\<lambda>n. b) 32) ` {b. length b = 32})"
    by simp
  from tok len sub nopad inj card_tokens big show ?thesis
    unfolding base64url_alphabet_def toString_base64url_def by blast
qed

section \<open>The properties at the example data\<close>

lemma example_paths:
  "getFolderPath exampleFolders (Some ''AB'') =
     Some [\<lparr>crumb_id = ''A'', crumb_name = ''a''\<rparr>, \<lparr>crumb_id = ''AB'', crumb_name = ''b''\<rparr>]"
  "getFolderPath exampleFolders (Some ''XYZ'') = Some [\<lparr>crumb_id = ''XYZ'', crumb_name = ''c''\<rparr>]"
  "getFolderPath exampleFolders None = Some []"
  by (simp_all add: getFolderPath_def loop_step loop_falsy loop_missing findFolder_def
      exampleFolders_def)

lemma example_items: "loadItems id exampleStore ''P1'' = [item3, item2, item1]"
  by (simp add: loadItems_def exampleStore_def item1_def item2_def item3_def item4_def
      itemKey_def less_eq_prod_def)

lemma example_links:
  "findLinkByToken exampleStore ''live'' = Some linkLive"
  "findLinkByToken exampleStore ''AAAAAAAAAAAAAAAAAAAAAAAAAAAAAAAAAAAAAAAAAAA'' = Some linkRevoked"
  "findLinkByToken exampleStore ''orphan'' = Some linkOrphan"
  "''never'' \<notin> link_token ` set (shareLinks exampleStore)"
  by (simp_all add: findLinkByToken_def exampleStore_def linkLive_def linkRevoked_def
      linkOrphan_def)

lemma example_plan:
  "findPlan exampleStore ''P1'' = Some planP1"
  "findPlan exampleStore ''P9'' = None"
  by (simp_all add: findPlan_def exampleStore_def planP1_def)

lemma example_views:
  "those (map (withFolderPath (folders exampleStore)) (loadItems id exampleStore (plan_id planP1))) =
     Some (pv_items (rp_plan examplePayload))"
proof -
  have f: "folders exampleStore = exampleFolders" by (simp add: exampleStore_def)
  have i: "tc_folderId (item_testCase item3) = Some ''XYZ''"
    "tc_folderId (item_testCase item2) = None"
    "tc_folderId (item_testCase item1) = Some ''AB''"
    by (simp_all add: item1_def item2_def item3_def)
  have inc: "includeFolder exampleFolders (Some ''XYZ'') =
      Some \<lparr>folder_id = ''XYZ'', folder_name = ''c'', folder_parentId = Some ''gone''\<rparr>"
    "includeFolder exampleFolders (Some ''AB'') =
      Some \<lparr>folder_id = ''AB'', folder_name = ''b'', folder_parentId = Some ''A''\<rparr>"
    "includeFolder exampleFolders None = None"
    by (simp_all add: includeFolder_def findFolder_def exampleFolders_def)
  have l: "loadItems id exampleStore (plan_id planP1) = [item3, item2, item1]"
    by (simp add: planP1_def example_items)
  show ?thesis
    unfolding f l by (simp add: withFolderPath_def i inc example_paths examplePayload_def)
qed

lemma example_resolve:
  "getPublicPlanReportByToken id exampleStore 3000 ''live'' = Some (ReportOk examplePayload)"
proof -
  have sel: "selectPublic linkLive = rp_share examplePayload"
    by (simp add: selectPublic_def linkLive_def examplePayload_def)
  have live: "sv_revokedAt (rp_share examplePayload) = None"
    "\<not> sv_expiresAt (rp_share examplePayload) \<le> 3000"
    "sv_planId (rp_share examplePayload) = ''P1''"
    by (simp_all add: examplePayload_def)
  have whole: "\<lparr>rp_share = rp_share examplePayload,
      rp_plan = \<lparr>pv_plan = planP1, pv_items = pv_items (rp_plan examplePayload)\<rparr>\<rparr>
      = examplePayload"
    by (simp add: examplePayload_def)
  show ?thesis
    unfolding getPublicPlanReportByToken_def example_links(1)
    by (simp add: sel live example_plan example_views whole)
qed

theorem getFolderPath_terminates_acyclic_witness:
  "\<exists>path. getFolderPath exampleFolders (Some ''AB'') = Some path \<and>
      breadcrumbs exampleFolders (Some ''AB'') path"
proof -
  have h: "\<forall>f\<in>set exampleFolders. \<forall>p. folder_parentId f = Some p \<longrightarrow> p \<noteq> [] \<longrightarrow>
      (if p = ''gone'' then 0 else length p) <
      (if folder_id f = ''gone'' then 0 else length (folder_id f))"
    by (simp add: exampleFolders_def)
  from getFolderPath_terminates_acyclic
    [of exampleFolders "\<lambda>s. if s = ''gone'' then 0 else length s" "Some ''AB''", OF h]
  show ?thesis .
qed

theorem resolve_error_results_witness:
  "getPublicPlanReportByToken id exampleStore 3000 ''never'' = Some LinkNotFound \<and>
   getPublicPlanReportByToken id exampleStore 3000 ''AAAAAAAAAAAAAAAAAAAAAAAAAAAAAAAAAAAAAAAAAAA''
     = Some LinkGone \<and>
   getPublicPlanReportByToken id exampleStore 5000 ''live'' = Some LinkGone \<and>
   getPublicPlanReportByToken id exampleStore 3000 ''orphan'' = Some PlanGone"
proof -
  have a: "getPublicPlanReportByToken id exampleStore 3000 ''never'' = Some LinkNotFound"
    using resolve_error_results[where token = "''never''" and db = exampleStore and now = 3000
      and scan = id] example_links(4) by blast
  have "link_revokedAt linkRevoked \<noteq> None" by (simp add: linkRevoked_def)
  with resolve_error_results
    [where token = "''AAAAAAAAAAAAAAAAAAAAAAAAAAAAAAAAAAAAAAAAAAA''" and db = exampleStore
      and now = 3000 and scan = id] example_links(2)
  have b: "getPublicPlanReportByToken id exampleStore 3000
      ''AAAAAAAAAAAAAAAAAAAAAAAAAAAAAAAAAAAAAAAAAAA'' = Some LinkGone" by blast
  have "link_expiresAt linkLive \<le> 5000" by (simp add: linkLive_def)
  with resolve_error_results[where token = "''live''" and db = exampleStore and now = 5000
      and scan = id] example_links(1)
  have c: "getPublicPlanReportByToken id exampleStore 5000 ''live'' = Some LinkGone" by blast
  have "link_revokedAt linkOrphan = None" "3000 < link_expiresAt linkOrphan"
    "findPlan exampleStore (link_planId linkOrphan) = None"
    by (simp_all add: linkOrphan_def example_plan)
  with resolve_error_results[where token = "''orphan''" and db = exampleStore and now = 3000
      and scan = id] example_links(3)
  have d: "getPublicPlanReportByToken id exampleStore 3000 ''orphan'' = Some PlanGone" by blast
  from a b c d show ?thesis by simp
qed

theorem resolve_hides_creator_witness:
  "getPublicPlanReportByToken id (setCreators (\<lambda>l. ''somebody else'') exampleStore) 3000 ''live''
     = Some (ReportOk examplePayload) \<and>
   rp_share examplePayload =
     \<lparr>sv_id = ''L1'', sv_token = ''live'', sv_planId = ''P1'', sv_createdAt = 1000,
      sv_expiresAt = 5000, sv_revokedAt = None\<rparr>"
  using resolve_hides_creator[where c = "\<lambda>l. ''somebody else''" and db = exampleStore
      and now = 3000 and token = "''live''" and scan = id]
    example_resolve example_links(1)
  by (simp add: linkLive_def)

theorem resolve_null_folder_witness:
  "\<exists>payload. getPublicPlanReportByToken id exampleStore 3000 ''live'' = Some (ReportOk payload) \<and>
     map iv_item (pv_items (rp_plan payload)) = [item3, item2, item1] \<and>
     (\<forall>v\<in>set (pv_items (rp_plan payload)).
        tc_folderId (item_testCase (iv_item v)) = None \<longrightarrow> iv_folderPath v = [])"
proof -
  have live: "link_revokedAt linkLive = None" "3000 < link_expiresAt linkLive"
    by (simp_all add: linkLive_def)
  have plan: "findPlan exampleStore (link_planId linkLive) = Some planP1"
    by (simp add: linkLive_def example_plan)
  have others: "\<forall>i\<in>set (loadItems id exampleStore (plan_id planP1)).
      tc_folderId (item_testCase i) \<noteq> None \<longrightarrow>
      getFolderPath (folders exampleStore) (tc_folderId (item_testCase i)) \<noteq> None"
    by (simp add: planP1_def example_items)
      (simp add: item1_def item2_def item3_def exampleStore_def example_paths)
  from resolve_null_folder[OF example_links(1) live plan others]
  show ?thesis by (simp add: planP1_def example_items)
qed

lemma example_resolve_rev:
  "getPublicPlanReportByToken rev exampleStore 4000 ''live'' = Some (ReportOk examplePayload)"
proof -
  have sel: "selectPublic linkLive = rp_share examplePayload"
    by (simp add: selectPublic_def linkLive_def examplePayload_def)
  have live: "sv_revokedAt (rp_share examplePayload) = None"
    "\<not> sv_expiresAt (rp_share examplePayload) \<le> 4000"
    "sv_planId (rp_share examplePayload) = ''P1''"
    by (simp_all add: examplePayload_def)
  have whole: "\<lparr>rp_share = rp_share examplePayload,
      rp_plan = \<lparr>pv_plan = planP1, pv_items = pv_items (rp_plan examplePayload)\<rparr>\<rparr>
      = examplePayload"
    by (simp add: examplePayload_def)
  have "loadItems rev exampleStore (plan_id planP1) = [item3, item2, item1]"
    by (simp add: loadItems_def exampleStore_def planP1_def item1_def item2_def item3_def
        item4_def itemKey_def less_eq_prod_def)
  then have items: "loadItems rev exampleStore (plan_id planP1) =
      loadItems id exampleStore (plan_id planP1)"
    by (simp add: planP1_def example_items)
  show ?thesis
    unfolding getPublicPlanReportByToken_def example_links(1)
    by (simp add: sel live example_plan items example_views whole)
qed

theorem resolve_items_ordered_witness:
  "sorted_wrt (\<lambda>a b. item_order a < item_order b \<or>
      (item_order a = item_order b \<and>
       tc_sequence (item_testCase a) \<le> tc_sequence (item_testCase b)))
     (map iv_item (pv_items (rp_plan examplePayload))) \<and>
   map iv_item (pv_items (rp_plan examplePayload)) = [item3, item2, item1] \<and>
   getPublicPlanReportByToken id exampleStore 3000 ''live'' = Some (ReportOk examplePayload) \<and>
   getPublicPlanReportByToken rev exampleStore 4000 ''live'' = Some (ReportOk examplePayload) \<and>
   distinct (map itemKey (map iv_item (pv_items (rp_plan examplePayload))))"
proof -
  have its: "map iv_item (pv_items (rp_plan examplePayload)) = [item3, item2, item1]"
    by (simp add: examplePayload_def)
  have engines: "\<forall>xs :: plan_item list. mset (id xs) = mset xs"
    "\<forall>xs :: plan_item list. mset (rev xs) = mset xs"
    by simp_all
  have dist: "distinct (map itemKey (map iv_item (pv_items (rp_plan examplePayload))))"
    unfolding its by (simp add: itemKey_def item1_def item2_def item3_def)
  from resolve_items_ordered[OF example_resolve engines(1)] example_resolve_rev engines(2)
    dist its example_resolve
  show ?thesis by simp
qed

lemma token_one:
  "generateShareToken (\<lambda>n. replicate n 1) 32 = ''AQEBAQEBAQEBAQEBAQEBAQEBAQEBAQEBAQEBAQEBAQE''"
  by code_simp

lemma example_retry:
  "createPlanReportShareLink exampleEnv exampleStore ''P1'' (Some ''u1'') =
     (Created exampleLink2,
      exampleStore\<lparr>shareLinks := shareLinks exampleStore @ [exampleLink2]\<rparr>,
      [''AAAAAAAAAAAAAAAAAAAAAAAAAAAAAAAAAAAAAAAAAAA'',
       ''AQEBAQEBAQEBAQEBAQEBAQEBAQEBAQEBAQEBAQEBAQE''])"
proof -
  let ?exp = "addDays (env_tz exampleEnv) (env_now exampleEnv) SHARE_EXPIRES_DAYS"
  have t: "attemptToken exampleEnv 0 = ''AAAAAAAAAAAAAAAAAAAAAAAAAAAAAAAAAAAAAAAAAAA''"
    "attemptToken exampleEnv 1 = ''AQEBAQEBAQEBAQEBAQEBAQEBAQEBAQEBAQEBAQEBAQE''"
    by (simp_all add: attemptToken_def exampleEnv_def token_zero token_one)
  have t': "attemptToken exampleEnv (Suc 0) = ''AQEBAQEBAQEBAQEBAQEBAQEBAQEBAQEBAQEBAQEBAQE''"
    using t(2) by simp
  have e: "?exp = 1768384800000"
    by (simp add: addDays_eq exampleEnv_def utcZone_def SHARE_EXPIRES_DAYS_def msPerDay_def)
  have o0: "attemptOutcome exampleEnv exampleStore ''P1'' ''u1'' ?exp 0 =
      Inl (ErrorWithCode ''P2002'')"
    unfolding attemptOutcome_def t
    by (simp add: reportShareLink_create_def example_links)
      (simp add: exampleEnv_def findLinkById_def exampleStore_def linkLive_def linkRevoked_def
        linkOrphan_def)
  have o1: "attemptOutcome exampleEnv exampleStore ''P1'' ''u1'' ?exp 1 =
      Inr (exampleLink2, exampleStore\<lparr>shareLinks := shareLinks exampleStore @ [exampleLink2]\<rparr>)"
    unfolding attemptOutcome_def t e
    by (simp add: reportShareLink_create_def example_plan exampleLink2_def)
      (simp add: exampleEnv_def findLinkById_def findLinkByToken_def exampleStore_def
        linkLive_def linkRevoked_def linkOrphan_def Let_def)
  have "createLoop exampleEnv exampleStore ''P1'' ''u1'' ?exp 1 =
      (Created exampleLink2,
       exampleStore\<lparr>shareLinks := shareLinks exampleStore @ [exampleLink2]\<rparr>,
       [attemptToken exampleEnv 1])"
    by (rule createLoop_created[OF _ o1]) simp
  moreover have "createLoop exampleEnv exampleStore ''P1'' ''u1'' ?exp 0 =
      (case createLoop exampleEnv exampleStore ''P1'' ''u1'' ?exp (0 + 1) of
         (res, db', tokens) \<Rightarrow> (res, db', attemptToken exampleEnv 0 # tokens))"
    by (rule createLoop_retry[OF _ o0]) simp_all
  ultimately have "createLoop exampleEnv exampleStore ''P1'' ''u1'' ?exp 0 =
      (Created exampleLink2,
       exampleStore\<lparr>shareLinks := shareLinks exampleStore @ [exampleLink2]\<rparr>,
       [attemptToken exampleEnv 0, attemptToken exampleEnv 1])"
    by simp
  then show ?thesis
    by (simp add: createPlanReportShareLink_def example_plan t t')
qed

lemma example_fault:
  "createPlanReportShareLink faultyEnv examplePlans ''P1'' (Some ''u1'') =
     (CreateServerError, examplePlans, [''AAAAAAAAAAAAAAAAAAAAAAAAAAAAAAAAAAAAAAAAAAA''])"
proof -
  have o: "attemptOutcome faultyEnv examplePlans ''P1'' ''u1'' e 0 = Inl (ErrorWithCode ''P1001'')"
    for e
    by (simp add: attemptOutcome_def reportShareLink_create_def faultyEnv_def)
  have t: "attemptToken faultyEnv 0 = ''AAAAAAAAAAAAAAAAAAAAAAAAAAAAAAAAAAAAAAAAAAA''"
    by (simp add: attemptToken_def faultyEnv_def exampleEnv_def token_zero)
  have p: "findPlan examplePlans ''P1'' = Some planP1"
    by (simp add: findPlan_def examplePlans_def planP1_def)
  have "createLoop faultyEnv examplePlans ''P1'' ''u1'' e 0 =
      (CreateServerError, examplePlans, [attemptToken faultyEnv 0])" for e
    by (rule createLoop_error[OF _ o]) simp_all
  then show ?thesis
    by (simp add: createPlanReportShareLink_def p t)
qed

theorem create_retry_policy_witness:
  "truthy (Some ''u1'') \<and>
   createPlanReportShareLink exampleEnv exampleStore ''P1'' (Some ''u1'') =
     (Created exampleLink2,
      exampleStore\<lparr>shareLinks := shareLinks exampleStore @ [exampleLink2]\<rparr>,
      [''AAAAAAAAAAAAAAAAAAAAAAAAAAAAAAAAAAAAAAAAAAA'',
       ''AQEBAQEBAQEBAQEBAQEBAQEBAQEBAQEBAQEBAQEBAQE'']) \<and>
   findPlan exampleStore ''P1'' \<noteq> None \<and>
   attemptOutcome exampleEnv exampleStore ''P1'' ''u1''
     (addDays (env_tz exampleEnv) (env_now exampleEnv) SHARE_EXPIRES_DAYS) 0 =
     Inl (ErrorWithCode ''P2002'') \<and>
   env_fault exampleEnv 0 = None \<and>
   generateShareToken (env_randomBytes exampleEnv 0) 32
     \<in> link_token ` set (shareLinks exampleStore) \<and>
   createPlanReportShareLink faultyEnv examplePlans ''P1'' (Some ''u1'') =
     (CreateServerError, examplePlans, [''AAAAAAAAAAAAAAAAAAAAAAAAAAAAAAAAAAAAAAAAAAA'']) \<and>
   findPlan examplePlans ''P1'' \<noteq> None \<and>
   env_fault faultyEnv 0 = Some (ErrorWithCode ''P1001'') \<and>
   attemptOutcome faultyEnv examplePlans ''P1'' ''u1''
     (addDays (env_tz faultyEnv) (env_now faultyEnv) SHARE_EXPIRES_DAYS) 0 =
     Inl (ErrorWithCode ''P1001'') \<and>
   create_status CreateServerError = 500"
proof -
  have auth: "truthy (Some ''u1'')" by simp
  have plan: "findPlan exampleStore ''P1'' \<noteq> None" by (simp add: example_plan)
  have nofault: "env_fault exampleEnv 0 = None"
    by (simp add: exampleEnv_def)
  note policy = create_retry_policy[OF auth example_retry refl]
  from policy plan
  have r: "attemptOutcome exampleEnv exampleStore ''P1'' (the (Some ''u1''))
      (addDays (env_tz exampleEnv) (env_now exampleEnv) SHARE_EXPIRES_DAYS) 0 =
      Inl (ErrorWithCode ''P2002'')"
    by simp
  have m: "generateShareToken (env_randomBytes exampleEnv 0) 32
      \<in> link_token ` set (shareLinks exampleStore)"
    by (simp add: exampleEnv_def token_zero exampleStore_def linkRevoked_def)
  have plan2: "findPlan examplePlans ''P1'' \<noteq> None"
    by (simp add: findPlan_def examplePlans_def planP1_def)
  have fault: "env_fault faultyEnv 0 = Some (ErrorWithCode ''P1001'')"
    by (simp add: faultyEnv_def)
  note policy2 = create_retry_policy[OF auth example_fault refl]
  from policy2 plan2 fault
  have out: "attemptOutcome faultyEnv examplePlans ''P1'' (the (Some ''u1''))
      (addDays (env_tz faultyEnv) (env_now faultyEnv) SHARE_EXPIRES_DAYS) 0 =
      Inl (ErrorWithCode ''P1001'')"
    by blast
  have s: "create_status CreateServerError = 500" by simp
  from auth example_retry plan r nofault m example_fault plan2 fault out s
  show ?thesis by simp
qed

lemma token_two:
  "generateShareToken (\<lambda>n. replicate n 2) 32 = ''AgICAgICAgICAgICAgICAgICAgICAgICAgICAgICAgI''"
  by code_simp

lemma example_pk_retry:
  "createPlanReportShareLink pkEnv exampleStore ''P1'' (Some ''u1'') =
     (Created pkLink,
      exampleStore\<lparr>shareLinks := shareLinks exampleStore @ [pkLink]\<rparr>,
      [''AQEBAQEBAQEBAQEBAQEBAQEBAQEBAQEBAQEBAQEBAQE'',
       ''AgICAgICAgICAgICAgICAgICAgICAgICAgICAgICAgI''])"
proof -
  let ?exp = "addDays (env_tz pkEnv) (env_now pkEnv) SHARE_EXPIRES_DAYS"
  have t: "attemptToken pkEnv 0 = ''AQEBAQEBAQEBAQEBAQEBAQEBAQEBAQEBAQEBAQEBAQE''"
    "attemptToken pkEnv 1 = ''AgICAgICAgICAgICAgICAgICAgICAgICAgICAgICAgI''"
    by (simp_all add: attemptToken_def pkEnv_def exampleEnv_def token_one token_two)
  have t': "attemptToken pkEnv (Suc 0) = ''AgICAgICAgICAgICAgICAgICAgICAgICAgICAgICAgI''"
    using t(2) by simp
  have e: "?exp = 1768384800000"
    by (simp add: addDays_eq pkEnv_def exampleEnv_def utcZone_def SHARE_EXPIRES_DAYS_def
        msPerDay_def)
  have o0: "attemptOutcome pkEnv exampleStore ''P1'' ''u1'' ?exp 0 =
      Inl (ErrorWithCode ''P2002'')"
    unfolding attemptOutcome_def t
    by (simp add: reportShareLink_create_def pkEnv_def exampleEnv_def findLinkById_def
        exampleStore_def linkLive_def)
  have o1: "attemptOutcome pkEnv exampleStore ''P1'' ''u1'' ?exp 1 =
      Inr (pkLink, exampleStore\<lparr>shareLinks := shareLinks exampleStore @ [pkLink]\<rparr>)"
    unfolding attemptOutcome_def t e
    by (simp add: reportShareLink_create_def example_plan pkLink_def)
      (simp add: pkEnv_def exampleEnv_def findLinkById_def findLinkByToken_def exampleStore_def
        linkLive_def linkRevoked_def linkOrphan_def Let_def)
  have "createLoop pkEnv exampleStore ''P1'' ''u1'' ?exp 1 =
      (Created pkLink, exampleStore\<lparr>shareLinks := shareLinks exampleStore @ [pkLink]\<rparr>,
       [attemptToken pkEnv 1])"
    by (rule createLoop_created[OF _ o1]) simp
  moreover have "createLoop pkEnv exampleStore ''P1'' ''u1'' ?exp 0 =
      (case createLoop pkEnv exampleStore ''P1'' ''u1'' ?exp (0 + 1) of
         (res, db', tokens) \<Rightarrow> (res, db', attemptToken pkEnv 0 # tokens))"
    by (rule createLoop_retry[OF _ o0]) simp_all
  ultimately have "createLoop pkEnv exampleStore ''P1'' ''u1'' ?exp 0 =
      (Created pkLink, exampleStore\<lparr>shareLinks := shareLinks exampleStore @ [pkLink]\<rparr>,
       [attemptToken pkEnv 0, attemptToken pkEnv 1])"
    by simp
  then show ?thesis
    by (simp add: createPlanReportShareLink_def example_plan t t')
qed

text \<open>
  The counterexample to C5 as stated: the persistence layer has no failure of its own
  and the token of the first attempt belongs to no share link, so the first attempt does
  not fail on a token-uniqueness conflict; it fails on the primary key, with the same
  code \<open>P2002\<close>, and the handler makes a second attempt.
\<close>

theorem create_retry_pk_counterexample:
  "createPlanReportShareLink pkEnv exampleStore ''P1'' (Some ''u1'') =
     (Created pkLink,
      exampleStore\<lparr>shareLinks := shareLinks exampleStore @ [pkLink]\<rparr>,
      [''AQEBAQEBAQEBAQEBAQEBAQEBAQEBAQEBAQEBAQEBAQE'',
       ''AgICAgICAgICAgICAgICAgICAgICAgICAgICAgICAgI'']) \<and>
   env_fault pkEnv 0 = None \<and>
   generateShareToken (env_randomBytes pkEnv 0) 32 =
     ''AQEBAQEBAQEBAQEBAQEBAQEBAQEBAQEBAQEBAQEBAQE'' \<and>
   ''AQEBAQEBAQEBAQEBAQEBAQEBAQEBAQEBAQEBAQEBAQE'' \<notin> link_token ` set (shareLinks exampleStore) \<and>
   env_newId pkEnv 0 \<in> link_id ` set (shareLinks exampleStore)"
proof -
  have a: "env_fault pkEnv 0 = None" by (simp add: pkEnv_def exampleEnv_def)
  have b: "generateShareToken (env_randomBytes pkEnv 0) 32 =
      ''AQEBAQEBAQEBAQEBAQEBAQEBAQEBAQEBAQEBAQEBAQE''"
    by (simp add: pkEnv_def token_one)
  have c: "''AQEBAQEBAQEBAQEBAQEBAQEBAQEBAQEBAQEBAQEBAQE''
      \<notin> link_token ` set (shareLinks exampleStore)"
    by (simp add: exampleStore_def linkLive_def linkRevoked_def linkOrphan_def)
  have d: "env_newId pkEnv 0 \<in> link_id ` set (shareLinks exampleStore)"
    by (simp add: pkEnv_def exampleStore_def linkLive_def)
  from example_pk_retry a b c d show ?thesis by simp
qed

theorem create_expiry_witness:
  "createPlanReportShareLink exampleEnv examplePlans ''P1'' (Some ''u1'') =
     (Created exampleLink, examplePlans\<lparr>shareLinks := [exampleLink]\<rparr>,
      [''AAAAAAAAAAAAAAAAAAAAAAAAAAAAAAAAAAAAAAAAAAA'']) \<and>
   link_expiresAt exampleLink = addDays utcZone 1767780000000 7 \<and>
   link_expiresAt exampleLink = 1767780000000 + 7 * (24 * 60 * 60 * 1000) \<and>
   link_createdAt exampleLink = 1767780000004"
  using create_expiry[OF example_create] example_create
  by (simp add: exampleEnv_def utcZone_def SHARE_EXPIRES_DAYS_def)

theorem list_all_newest_first_witness:
  "findPlan exampleStore ''P9'' = None \<and>
   listPlanReportShareLinks exampleStore ''P9'' = ListPlanNotFound \<and>
   findPlan exampleStore ''P1'' \<noteq> None \<and>
   (\<exists>links. listPlanReportShareLinks exampleStore ''P1'' = ListOk links \<and>
      set links = {l \<in> set (shareLinks exampleStore). link_planId l = ''P1''} \<and>
      sorted_wrt (\<lambda>a b. link_createdAt a \<ge> link_createdAt b) links)"
proof -
  have a: "findPlan exampleStore ''P9'' = None" and b: "findPlan exampleStore ''P1'' \<noteq> None"
    by (simp_all add: example_plan)
  from list_all_newest_first[of exampleStore "''P9''"] a
    list_all_newest_first[of exampleStore "''P1''"] b
  show ?thesis by blast
qed

theorem revoke_idempotent_witness:
  "findLinkById exampleStore ''L2'' = Some linkRevoked \<and>
   link_revokedAt linkRevoked = Some 2500 \<and>
   revokeReportShareLink exampleStore 9000 ''L2'' =
     (AlreadyRevoked \<lparr>rv_id = ''L2'', rv_revokedAt = Some 2500\<rparr>, exampleStore) \<and>
   findLinkById
     (run exampleStore
        [RevokeLink 9000 ''L2'', CreateLink exampleEnv ''P1'' (Some ''u1''),
         RevokeLink 9500 ''L1'', ResolveToken 9600 ''live'', RevokeLink 9700 ''L2''])
     ''L2'' = Some linkRevoked"
proof -
  have f: "findLinkById exampleStore ''L2'' = Some linkRevoked"
    by (simp add: findLinkById_def exampleStore_def linkLive_def linkRevoked_def)
  have r: "link_revokedAt linkRevoked = Some 2500" by (simp add: linkRevoked_def)
  have i: "link_id linkRevoked = ''L2''" by (simp add: linkRevoked_def)
  from revoke_idempotent[OF f r, of 9000] f r i show ?thesis by simp
qed

text \<open>
  C4. The repeated revoke at the example store: the answer carries the two columns of
  the lookup, \<open>id\<close> and \<open>revokedAt\<close>, and is the same for two stores whose records
  under that \<open>id\<close> differ in token, creator, \<open>createdAt\<close> and \<open>expiresAt\<close>; so it is not
  the existing record. The first revoke of a live link answers with the whole row.
\<close>

theorem revoke_again_answer:
  "revokeReportShareLink exampleStore 9000 ''L2'' =
     (AlreadyRevoked \<lparr>rv_id = ''L2'', rv_revokedAt = Some 2500\<rparr>, exampleStore) \<and>
   revokeReportShareLink otherStore 9000 ''L2'' =
     (AlreadyRevoked \<lparr>rv_id = ''L2'', rv_revokedAt = Some 2500\<rparr>, otherStore) \<and>
   findLinkById exampleStore ''L2'' = Some linkRevoked \<and>
   findLinkById otherStore ''L2'' = Some linkRevokedOther \<and>
   linkRevoked \<noteq> linkRevokedOther \<and>
   revokeReportShareLink exampleStore 9000 ''L1'' =
     (Revoked (linkLive\<lparr>link_revokedAt := Some 9000\<rparr>),
      exampleStore\<lparr>shareLinks := [linkLive\<lparr>link_revokedAt := Some 9000\<rparr>, linkRevoked,
        linkOrphan]\<rparr>)"
proof -
  have f: "findLinkById exampleStore ''L2'' = Some linkRevoked"
    by (simp add: findLinkById_def exampleStore_def linkLive_def linkRevoked_def)
  have g: "findLinkById otherStore ''L2'' = Some linkRevokedOther"
    by (simp add: findLinkById_def otherStore_def linkLive_def linkRevokedOther_def)
  have h: "findLinkById exampleStore ''L1'' = Some linkLive"
    by (simp add: findLinkById_def exampleStore_def linkLive_def)
  have a: "revokeReportShareLink exampleStore 9000 ''L2'' =
      (AlreadyRevoked \<lparr>rv_id = ''L2'', rv_revokedAt = Some 2500\<rparr>, exampleStore)"
    unfolding revokeReportShareLink_def f by (simp add: linkRevoked_def)
  have b: "revokeReportShareLink otherStore 9000 ''L2'' =
      (AlreadyRevoked \<lparr>rv_id = ''L2'', rv_revokedAt = Some 2500\<rparr>, otherStore)"
    unfolding revokeReportShareLink_def g by (simp add: linkRevokedOther_def)
  have c: "linkRevoked \<noteq> linkRevokedOther"
    by (simp add: linkRevoked_def linkRevokedOther_def)
  have l: "link_revokedAt linkLive = None" "link_id linkLive = ''L1''"
    by (simp_all add: linkLive_def)
  have d: "revokeReportShareLink exampleStore 9000 ''L1'' =
      (Revoked (linkLive\<lparr>link_revokedAt := Some 9000\<rparr>),
       exampleStore\<lparr>shareLinks := [linkLive\<lparr>link_revokedAt := Some 9000\<rparr>, linkRevoked,
         linkOrphan]\<rparr>)"
    unfolding revokeReportShareLink_def h by (simp add: l) (simp add: exampleStore_def l)
  from a b f g c d show ?thesis by simp
qed

theorem generateShareToken_shape_witness:
  "length (replicate 32 (0 :: byte)) = 32 \<and>
   generateShareToken (\<lambda>n. replicate n 0) 32 = ''AAAAAAAAAAAAAAAAAAAAAAAAAAAAAAAAAAAAAAAAAAA'' \<and>
   length (generateShareToken (\<lambda>n. replicate n 0) 32) = 43 \<and>
   CHR ''='' \<notin> set (generateShareToken (\<lambda>n. replicate n 0) 32)"
proof -
  have h: "length (replicate 32 (0 :: byte)) = 32" by simp
  from generateShareToken_shape[of "\<lambda>n. replicate n 0", OF h]
  have l: "length (generateShareToken (\<lambda>n. replicate n 0) 32) = 43"
    and p: "CHR ''='' \<notin> set (generateShareToken (\<lambda>n. replicate n 0) 32)"
    by blast+
  from h token_zero l p show ?thesis by (intro conjI)
qed

end
